theory Spec2Isabelle
  imports Complex_Main
begin

section \<open>JavaScript values\<close>

text \<open>
  The program is \<^verbatim>\<open>src/assets/js/painttool.js\<close>. Its shapes are JavaScript objects whose
  fields hold whatever the caller passed: numbers when a shape is drawn with the mouse,
  arbitrary parsed JSON when a shape is loaded from a file. So the fields are values of
  one dynamically typed universe.

  \<^item> A number is a rational (\<open>JNum\<close>) or \<open>NaN\<close> (\<open>JNaN\<close>). IEEE rounding,
    infinities and the negative zero are not part of the model: the program only adds,
    subtracts and halves coordinates.
  \<^item> A string is a list of code units; \<open>length\<close> is the JavaScript \<open>.length\<close>.
  \<^item> An array is the list of its elements, an object the association list of its own
    properties in the order in which they are enumerated (keys are distinct).
\<close>

datatype jsval =
    JUndefined
  | JNull
  | JBool bool
  | JNum rat
  | JNaN
  | JStr string
  | JArr "jsval list"
  | JObj "(string \<times> jsval) list"

text \<open>
  \<open>TypeError\<close> and \<open>SyntaxError\<close> are the exceptions of the language, and
  \<open>IndexSizeError\<close> is the exception with which \<open>ctx.ellipse\<close> refuses a negative
  radius. \<open>Unmodelled\<close> is not an exception: it marks a run that leaves the fragment
  described here, by converting a string, an array or an object to a number, or a number or
  an array to a string. Such a conversion does not throw; what it computes, and what the
  program does after it, is not described.
\<close>

datatype error = TypeError | SyntaxError | IndexSizeError | Unmodelled

text \<open>
  \<open>v.name\<close> for the property names the program reads (\<open>type\<close>, \<open>position\<close>,
  \<open>settings\<close>, \<open>x\<close>, \<open>length\<close>, ...). Reading a property of \<open>undefined\<close> or
  \<open>null\<close> throws; none of the names but \<open>length\<close> is defined by a built-in prototype, so
  on any other value a name that is not an own property reads as \<open>undefined\<close>.
\<close>

fun getProp :: "jsval \<Rightarrow> string \<Rightarrow> error + jsval" where
  "getProp JUndefined name = Inl TypeError"
| "getProp JNull name = Inl TypeError"
| "getProp (JObj fs) name = Inr (case map_of fs name of None \<Rightarrow> JUndefined | Some v \<Rightarrow> v)"
| "getProp (JArr xs) name =
     Inr (if name = ''length'' then JNum (of_nat (length xs)) else JUndefined)"
| "getProp (JStr s) name =
     Inr (if name = ''length'' then JNum (of_nat (length s)) else JUndefined)"
| "getProp v name = Inr JUndefined"

text \<open>\<open>obj.name = v\<close> on an object, for the names the program assigns (\<open>type\<close>,
  \<open>color\<close>, \<open>filled\<close>, \<open>width\<close>, \<open>font\<close>): an existing property keeps its place,
  a new one comes last.\<close>

fun setField :: "string \<Rightarrow> jsval \<Rightarrow> (string \<times> jsval) list \<Rightarrow> (string \<times> jsval) list" where
  "setField name v [] = [(name, v)]"
| "setField name v (kv # fs) =
     (if fst kv = name then (name, v) # fs else kv # setField name v fs)"

text \<open>The decimal numeral of an array index, as a property key.\<close>

fun string_of_nat :: "nat \<Rightarrow> string" where
  "string_of_nat n =
     (if n < 10 then [''0123456789'' ! n]
      else string_of_nat (n div 10) @ [''0123456789'' ! (n mod 10)])"

declare string_of_nat.simps [simp del]

text \<open>\<open>v[j]\<close> for a loop counter \<open>j\<close>. An index past the end reads as \<open>undefined\<close>.\<close>

fun getIndex :: "jsval \<Rightarrow> nat \<Rightarrow> error + jsval" where
  "getIndex JUndefined j = Inl TypeError"
| "getIndex JNull j = Inl TypeError"
| "getIndex (JArr xs) j = Inr (if j < length xs then xs ! j else JUndefined)"
| "getIndex (JStr s) j = Inr (if j < length s then JStr [s ! j] else JUndefined)"
| "getIndex (JObj fs) j =
     Inr (case map_of fs (string_of_nat j) of None \<Rightarrow> JUndefined | Some v \<Rightarrow> v)"
| "getIndex v j = Inr JUndefined"

text \<open>\<open>xs[j]\<close> on an array the program owns.\<close>

definition nth_js :: "jsval list \<Rightarrow> nat \<Rightarrow> jsval" where
  "nth_js xs j = (if j < length xs then xs ! j else JUndefined)"

text \<open>The condition of an \<open>if\<close>.\<close>

fun truthy :: "jsval \<Rightarrow> bool" where
  "truthy JUndefined = False"
| "truthy JNull = False"
| "truthy (JBool b) = b"
| "truthy (JNum r) = (r \<noteq> 0)"
| "truthy JNaN = False"
| "truthy (JStr s) = (s \<noteq> [])"
| "truthy v = True"

subsection \<open>Arithmetic\<close>

text \<open>
  \<open>ToNumber\<close> on the values that need no parsing: \<open>None\<close> is \<open>NaN\<close>. Strings, arrays
  and objects are outside the fragment.
\<close>

fun toNumber :: "jsval \<Rightarrow> error + rat option" where
  "toNumber JUndefined = Inr None"
| "toNumber JNull = Inr (Some 0)"
| "toNumber (JBool b) = Inr (Some (if b then 1 else 0))"
| "toNumber (JNum r) = Inr (Some r)"
| "toNumber JNaN = Inr None"
| "toNumber v = Inl Unmodelled"

definition ofNumber :: "rat option \<Rightarrow> jsval" where
  "ofNumber n = (case n of None \<Rightarrow> JNaN | Some r \<Rightarrow> JNum r)"

definition arith :: "(rat \<Rightarrow> rat \<Rightarrow> rat) \<Rightarrow> jsval \<Rightarrow> jsval \<Rightarrow> error + jsval" where
  "arith f a b =
     (case toNumber a of Inl e \<Rightarrow> Inl e | Inr m \<Rightarrow>
      (case toNumber b of Inl e \<Rightarrow> Inl e | Inr n \<Rightarrow>
       Inr (case m of None \<Rightarrow> JNaN | Some r \<Rightarrow>
            (case n of None \<Rightarrow> JNaN | Some s \<Rightarrow> JNum (f r s)))))"

text \<open>\<open>a + b\<close> (both operands numbers, booleans, \<open>null\<close> or \<open>undefined\<close>), \<open>a - b\<close>,
  \<open>a / 2\<close>, \<open>Math.abs(a)\<close> and \<open>Math.max(a, b)\<close>.\<close>

definition js_add :: "jsval \<Rightarrow> jsval \<Rightarrow> error + jsval" where
  "js_add a b = arith (\<lambda>r s. r + s) a b"

definition js_sub :: "jsval \<Rightarrow> jsval \<Rightarrow> error + jsval" where
  "js_sub a b = arith (\<lambda>r s. r - s) a b"

definition js_half :: "jsval \<Rightarrow> error + jsval" where
  "js_half a = arith (\<lambda>r s. r / s) a (JNum 2)"

definition js_abs :: "jsval \<Rightarrow> error + jsval" where
  "js_abs a = (case toNumber a of Inl e \<Rightarrow> Inl e | Inr m \<Rightarrow> Inr (ofNumber (map_option abs m)))"

definition js_max :: "jsval \<Rightarrow> jsval \<Rightarrow> error + jsval" where
  "js_max a b = arith max a b"

text \<open>Sequencing of computations that may throw.\<close>

definition andThen :: "error + 'a \<Rightarrow> ('a \<Rightarrow> error + 'b) \<Rightarrow> error + 'b" where
  "andThen r k = (case r of Inl e \<Rightarrow> Inl e | Inr v \<Rightarrow> k v)"

section \<open>Shapes\<close>

text \<open>
  One constructor per class, with the fields in the order the class constructors assign
  them. \<open>'s\<close> is what the \<open>settings\<close> field holds: the settings object by value
  (\<open>jsval shape\<close>) in this section, its address in the store of the drawer further down.

  \<^item> \<open>Rectangle position settings width height\<close>
  \<^item> \<open>Oval position settings xRadius yRadius x y\<close>, and \<open>Circle\<close> the same
  \<^item> \<open>Line position settings ex ey\<close>: \<open>endPosition\<close> is the object \<open>{x: ex, y: ey}\<close>
    that the constructor creates and that only \<open>Line.resize\<close> writes
  \<^item> \<open>LineList position settings xList yList\<close>, and \<open>EraseList\<close> the same
  \<^item> \<open>DrawnText position settings chars\<close>
\<close>

datatype 's shape =
    Rectangle jsval 's jsval jsval
  | Oval jsval 's jsval jsval jsval jsval
  | Circle jsval 's jsval jsval jsval jsval
  | Line jsval 's jsval jsval
  | LineList jsval 's "jsval list" "jsval list"
  | EraseList jsval 's "jsval list" "jsval list"
  | DrawnText jsval 's "jsval list"

fun settings :: "'s shape \<Rightarrow> 's" where
  "settings (Rectangle p s w h) = s"
| "settings (Oval p s xr yr x2 y2) = s"
| "settings (Circle p s xr yr x2 y2) = s"
| "settings (Line p s ex ey) = s"
| "settings (LineList p s xl yl) = s"
| "settings (EraseList p s xl yl) = s"
| "settings (DrawnText p s cs) = s"

text \<open>\<open>shape.__proto__.constructor.name\<close>\<close>

fun constructor_name :: "'s shape \<Rightarrow> string" where
  "constructor_name (Rectangle p s w h) = ''Rectangle''"
| "constructor_name (Oval p s xr yr x2 y2) = ''Oval''"
| "constructor_name (Circle p s xr yr x2 y2) = ''Circle''"
| "constructor_name (Line p s ex ey) = ''Line''"
| "constructor_name (LineList p s xl yl) = ''LineList''"
| "constructor_name (EraseList p s xl yl) = ''EraseList''"
| "constructor_name (DrawnText p s cs) = ''DrawnText''"

subsection \<open>Constructors\<close>

text \<open>
  \<open>new Oval(position, settings, xRadius, yRadius)\<close> sets \<open>this.x = position.x\<close> and
  \<open>this.y = position.y\<close>, so it throws when \<open>position\<close> is \<open>undefined\<close> or \<open>null\<close>.
  \<open>new Circle(position, settings, radius)\<close> calls it with the radius twice.
  \<open>new Line(start, settings, end)\<close> copies \<open>end\<close> into a fresh object.
\<close>

definition new_Rectangle :: "jsval \<Rightarrow> 's \<Rightarrow> jsval \<Rightarrow> jsval \<Rightarrow> 's shape" where
  "new_Rectangle position s width height = Rectangle position s width height"

definition new_Oval :: "jsval \<Rightarrow> 's \<Rightarrow> jsval \<Rightarrow> jsval \<Rightarrow> error + 's shape" where
  "new_Oval position s xRadius yRadius =
     andThen (getProp position ''x'') (\<lambda>px.
     andThen (getProp position ''y'') (\<lambda>py.
     Inr (Oval position s xRadius yRadius px py)))"

definition new_Circle :: "jsval \<Rightarrow> 's \<Rightarrow> jsval \<Rightarrow> error + 's shape" where
  "new_Circle position s radius =
     andThen (getProp position ''x'') (\<lambda>px.
     andThen (getProp position ''y'') (\<lambda>py.
     Inr (Circle position s radius radius px py)))"

definition new_Line :: "jsval \<Rightarrow> 's \<Rightarrow> jsval \<Rightarrow> error + 's shape" where
  "new_Line startPosition s endPosition =
     andThen (getProp endPosition ''x'') (\<lambda>ex.
     andThen (getProp endPosition ''y'') (\<lambda>ey.
     Inr (Line startPosition s ex ey)))"

definition new_LineList :: "jsval \<Rightarrow> 's \<Rightarrow> 's shape" where
  "new_LineList position s = LineList position s [] []"

definition new_EraseList :: "jsval \<Rightarrow> 's \<Rightarrow> 's shape" where
  "new_EraseList position s = EraseList position s [] []"

definition new_DrawnText :: "jsval \<Rightarrow> 's \<Rightarrow> 's shape" where
  "new_DrawnText position s = DrawnText position s []"

subsection \<open>resize\<close>

text \<open>
  \<open>shape.resize(a, b)\<close> mutates the shape. The result is the shape after the call and the
  exception, if one was thrown: \<open>Oval.resize\<close> and \<open>Circle.resize\<close> assign \<open>x\<close> and
  \<open>y\<close> before they read \<open>this.position.x\<close>, so those two fields are already changed when the
  read throws. \<open>DrawnText.resize(key)\<close> takes one argument and ignores a second one.
\<close>

definition DrawnText_resize :: "jsval \<Rightarrow> jsval list \<Rightarrow> jsval list \<times> error option" where
  "DrawnText_resize key chars =
     (if key = JStr ''Backspace'' then
        (if length chars > 0 then (butlast chars, None) else (chars, None))
      else
        (case getProp key ''length'' of
           Inl e \<Rightarrow> (chars, Some e)
         | Inr l \<Rightarrow> if l = JNum 1 then (chars @ [key], None) else (chars, None)))"

definition radius_of :: "jsval \<Rightarrow> jsval \<Rightarrow> string \<Rightarrow> error + jsval" where
  "radius_of a position name =
     andThen (getProp position name) (\<lambda>p.
     andThen (js_sub a p) (\<lambda>d.
     andThen (js_abs d) (\<lambda>m. js_half m)))"

fun resize :: "jsval \<Rightarrow> jsval \<Rightarrow> 's shape \<Rightarrow> 's shape \<times> error option" where
  "resize a b (Rectangle p s w h) =
     (case andThen (getProp p ''x'') (js_sub a) of
        Inl e \<Rightarrow> (Rectangle p s w h, Some e)
      | Inr w' \<Rightarrow>
        (case andThen (getProp p ''y'') (js_sub b) of
           Inl e \<Rightarrow> (Rectangle p s w' h, Some e)
         | Inr h' \<Rightarrow> (Rectangle p s w' h', None)))"
| "resize a b (Oval p s xr yr x2 y2) =
     (case radius_of a p ''x'' of
        Inl e \<Rightarrow> (Oval p s xr yr a b, Some e)
      | Inr xr' \<Rightarrow>
        (case radius_of b p ''y'' of
           Inl e \<Rightarrow> (Oval p s xr' yr a b, Some e)
         | Inr yr' \<Rightarrow> (Oval p s xr' yr' a b, None)))"
| "resize a b (Circle p s xr yr x2 y2) =
     (case andThen (andThen (getProp p ''x'') (\<lambda>px. andThen (js_sub a px) js_abs)) (\<lambda>dx.
           andThen (andThen (getProp p ''y'') (\<lambda>py. andThen (js_sub b py) js_abs)) (\<lambda>dy.
           andThen (js_max dx dy) js_half)) of
        Inl e \<Rightarrow> (Circle p s xr yr a b, Some e)
      | Inr r \<Rightarrow> (Circle p s r r a b, None))"
| "resize a b (Line p s ex ey) = (Line p s a b, None)"
| "resize a b (LineList p s xl yl) = (LineList p s (xl @ [a]) (yl @ [b]), None)"
| "resize a b (EraseList p s xl yl) = (EraseList p s (xl @ [a]) (yl @ [b]), None)"
| "resize a b (DrawnText p s cs) =
     (case DrawnText_resize a cs of (cs', err) \<Rightarrow> (DrawnText p s cs', err))"

subsection \<open>render\<close>

text \<open>
  \<open>shape.render(ctx)\<close> writes to the 2d context of the canvas. The context is kept as
  the list of the assignments and calls it received, with the values the program passed; what
  the browser paints for them is outside the program (it ignores a call one of whose
  coordinates is \<open>NaN\<close> or \<open>undefined\<close>, and an assignment of a value it cannot
  read). \<open>Ellipse cx cy rx ry\<close> is the call
  \<open>ctx.ellipse(cx, cy, rx, ry, 0, 0, 2 * Math.PI)\<close>.
\<close>

datatype ctx_cmd =
    SetGlobalCompositeOperation string
  | SetFillStyle jsval
  | SetStrokeStyle jsval
  | SetLineWidth jsval
  | SetFont jsval
  | FillRect jsval jsval jsval jsval
  | StrokeRect jsval jsval jsval jsval
  | BeginPath
  | ClosePath
  | Ellipse jsval jsval jsval jsval
  | Fill
  | Stroke
  | MoveTo jsval jsval
  | LineTo jsval jsval
  | QuadraticCurveTo jsval jsval jsval jsval
  | FillText string jsval jsval

text \<open>
  A run of drawing code: the commands it issued, and the exception that ended it, if any.
  \<open>emit\<close> issues one command, \<open>seqT\<close> runs a second piece of code after a first one
  that did not throw, \<open>bindT\<close> evaluates an expression and hands its value on.
\<close>

type_synonym trace = "ctx_cmd list \<times> error option"

definition emit :: "ctx_cmd \<Rightarrow> trace" where
  "emit c = ([c], None)"

definition seqT :: "trace \<Rightarrow> trace \<Rightarrow> trace" where
  "seqT t u = (case snd t of Some e \<Rightarrow> t | None \<Rightarrow> (fst t @ fst u, snd u))"

definition bindT :: "error + 'a \<Rightarrow> ('a \<Rightarrow> trace) \<Rightarrow> trace" where
  "bindT r k = (case r of Inl e \<Rightarrow> ([], Some e) | Inr v \<Rightarrow> k v)"

text \<open>
  \<open>ctx.ellipse(cx, cy, rx, ry, 0, 0, 2 * Math.PI)\<close>: the one call of the program that
  the context can refuse. It converts its arguments to numbers, returns at once when one of
  them is \<open>NaN\<close>, and throws when a radius is negative.
\<close>

definition ellipse :: "jsval \<Rightarrow> jsval \<Rightarrow> jsval \<Rightarrow> jsval \<Rightarrow> trace" where
  "ellipse cx cy rx ry =
     bindT (toNumber cx) (\<lambda>a.
     bindT (toNumber cy) (\<lambda>b.
     bindT (toNumber rx) (\<lambda>r1.
     bindT (toNumber ry) (\<lambda>r2.
       case (a, b, r1, r2) of
         (Some a', Some b', Some u, Some v) \<Rightarrow>
           if u < 0 \<or> v < 0 then ([], Some IndexSizeError) else emit (Ellipse cx cy rx ry)
       | _ \<Rightarrow> emit (Ellipse cx cy rx ry)))))"

text \<open>\<open>Shape.render\<close>, which every subclass calls as \<open>super.render(ctx)\<close>.\<close>

definition Shape_render :: "jsval \<Rightarrow> trace" where
  "Shape_render s =
     bindT (getProp s ''color'') (\<lambda>c. seqT (emit (SetFillStyle c))
    (bindT (getProp s ''color'') (\<lambda>c. seqT (emit (SetStrokeStyle c))
    (bindT (getProp s ''width'') (\<lambda>w. seqT (emit (SetLineWidth w))
    (bindT (getProp s ''font'') (\<lambda>f. emit (SetFont f))))))))"

text \<open>
  The smoothing loop of \<open>LineList.render\<close> and \<open>EraseList.render\<close>:
  \<^verbatim>\<open>
  for (let i = 0; ; i++) {
      if (i > this.xList.length - 1) {
          ctx.quadraticCurveTo(this.xList[i], this.yList[i], this.xList[i + 1], this.yList[i + 1]);
          break;
      }
      let center = { x: (this.xList[i] + this.xList[i + 1]) / 2, y: (this.yList[i] + this.yList[i + 1]) / 2 };
      ctx.quadraticCurveTo(this.xList[i], this.yList[i], center.x, center.y);
  }
  \<close>
  \<open>smooth i xl yl\<close> is the loop from counter \<open>i\<close> on.
\<close>

function smooth :: "nat \<Rightarrow> jsval list \<Rightarrow> jsval list \<Rightarrow> trace" where
  "smooth i xl yl =
     (if int i > int (length xl) - 1 then
        emit (QuadraticCurveTo (nth_js xl i) (nth_js yl i) (nth_js xl (i + 1)) (nth_js yl (i + 1)))
      else
        bindT (andThen (js_add (nth_js xl i) (nth_js xl (i + 1))) js_half) (\<lambda>cx.
        bindT (andThen (js_add (nth_js yl i) (nth_js yl (i + 1))) js_half) (\<lambda>cy.
        seqT (emit (QuadraticCurveTo (nth_js xl i) (nth_js yl i) cx cy))
             (smooth (i + 1) xl yl))))"
  by pat_completeness auto
termination
  by (relation "measure (\<lambda>(i, xl, yl). length xl - i)") auto

declare smooth.simps [simp del]

text \<open>\<open>this.chars.join('')\<close>: \<open>null\<close> and \<open>undefined\<close> elements join as the empty string.\<close>

fun join_text :: "jsval \<Rightarrow> error + string" where
  "join_text (JStr s) = Inr s"
| "join_text JUndefined = Inr []"
| "join_text JNull = Inr []"
| "join_text (JBool b) = Inr (if b then ''true'' else ''false'')"
| "join_text JNaN = Inr ''NaN''"
| "join_text (JObj fs) = Inr ''[object Object]''"
| "join_text v = Inl Unmodelled"

fun join :: "jsval list \<Rightarrow> error + string" where
  "join [] = Inr []"
| "join (c # cs) = andThen (join_text c) (\<lambda>s. andThen (join cs) (\<lambda>t. Inr (s @ t)))"

text \<open>\<open>Oval.render\<close>, which \<open>Circle\<close> inherits.\<close>

definition Oval_render :: "jsval \<Rightarrow> jsval \<Rightarrow> jsval \<Rightarrow> jsval \<Rightarrow> jsval \<Rightarrow> jsval \<Rightarrow> trace" where
  "Oval_render p s xr yr x2 y2 =
     seqT (emit (SetGlobalCompositeOperation ''source-over''))
    (seqT (Shape_render s)
    (seqT (emit BeginPath)
    (bindT (andThen (andThen (getProp p ''x'') (\<lambda>px. js_add px x2)) js_half) (\<lambda>c_x.
     bindT (andThen (andThen (getProp p ''y'') (\<lambda>py. js_add py y2)) js_half) (\<lambda>c_y.
     seqT (ellipse c_x c_y xr yr)
    (bindT (getProp s ''filled'') (\<lambda>filled.
       if truthy filled then emit Fill else seqT (emit Stroke) (emit ClosePath))))))))"

fun render :: "jsval shape \<Rightarrow> trace" where
  "render (Rectangle p s w h) =
     seqT (emit (SetGlobalCompositeOperation ''source-over''))
    (seqT (Shape_render s)
    (bindT (getProp s ''filled'') (\<lambda>filled.
     bindT (getProp p ''x'') (\<lambda>px.
     bindT (getProp p ''y'') (\<lambda>py.
       if truthy filled then emit (FillRect px py w h) else emit (StrokeRect px py w h))))))"
| "render (Oval p s xr yr x2 y2) = Oval_render p s xr yr x2 y2"
| "render (Circle p s xr yr x2 y2) = Oval_render p s xr yr x2 y2"
| "render (Line p s ex ey) =
     seqT (emit (SetGlobalCompositeOperation ''source-over''))
    (seqT (Shape_render s)
    (seqT (emit BeginPath)
    (bindT (getProp p ''x'') (\<lambda>px.
     bindT (getProp p ''y'') (\<lambda>py.
     seqT (emit (MoveTo px py))
    (seqT (emit (LineTo ex ey))
    (seqT (emit Stroke) (emit ClosePath))))))))"
| "render (LineList p s xl yl) =
     seqT (emit (SetGlobalCompositeOperation ''source-over''))
    (seqT (Shape_render s)
    (seqT (emit BeginPath)
    (bindT (getProp p ''x'') (\<lambda>px.
     bindT (getProp p ''y'') (\<lambda>py.
     seqT (emit (MoveTo px py))
    (seqT (smooth 0 xl yl)
    (seqT (emit Stroke) (emit ClosePath))))))))"
| "render (EraseList p s xl yl) =
     seqT (Shape_render s)
    (seqT (emit BeginPath)
    (seqT (emit (SetGlobalCompositeOperation ''destination-out''))
    (bindT (getProp p ''x'') (\<lambda>px.
     bindT (getProp p ''y'') (\<lambda>py.
     seqT (emit (MoveTo px py))
    (seqT (smooth 0 xl yl)
    (seqT (emit Stroke) (emit ClosePath))))))))"
| "render (DrawnText p s cs) =
     seqT (emit (SetGlobalCompositeOperation ''source-over''))
    (seqT (Shape_render s)
    (bindT (getProp s ''filled'') (\<lambda>filled.
     bindT (join cs) (\<lambda>text.
     bindT (getProp p ''x'') (\<lambda>px.
     bindT (getProp p ''y'') (\<lambda>py.
       if truthy filled then emit (FillText text px py) else emit (FillText text px py)))))))"

section \<open>Saving and loading, on values\<close>

text \<open>
  \<open>JSON.parse(JSON.stringify(v))\<close>: a property whose value is \<open>undefined\<close> is left
  out, \<open>undefined\<close> in an array and \<open>NaN\<close> become \<open>null\<close>, everything else is
  copied. The text in between is not modelled: a file is the JSON value its text denotes.
\<close>

primrec json_clone :: "jsval \<Rightarrow> jsval" where
  "json_clone JUndefined = JUndefined"
| "json_clone JNull = JNull"
| "json_clone (JBool b) = JBool b"
| "json_clone (JNum r) = JNum r"
| "json_clone JNaN = JNull"
| "json_clone (JStr s) = JStr s"
| "json_clone (JArr xs) =
     JArr (map (\<lambda>v. if v = JUndefined then JNull else v) (map json_clone xs))"
| "json_clone (JObj fs) =
     JObj (filter (\<lambda>kv. snd kv \<noteq> JUndefined) (map (map_prod id json_clone) fs))"

text \<open>The own properties of a shape object, in the order the constructors create them.\<close>

fun shape_obj :: "jsval shape \<Rightarrow> (string \<times> jsval) list" where
  "shape_obj (Rectangle p s w h) =
     [(''position'', p), (''settings'', s), (''width'', w), (''height'', h)]"
| "shape_obj (Oval p s xr yr x2 y2) =
     [(''position'', p), (''settings'', s), (''xRadius'', xr), (''yRadius'', yr),
      (''x'', x2), (''y'', y2)]"
| "shape_obj (Circle p s xr yr x2 y2) =
     [(''position'', p), (''settings'', s), (''xRadius'', xr), (''yRadius'', yr),
      (''x'', x2), (''y'', y2)]"
| "shape_obj (Line p s ex ey) =
     [(''position'', p), (''settings'', s), (''endPosition'', JObj [(''x'', ex), (''y'', ey)])]"
| "shape_obj (LineList p s xl yl) =
     [(''position'', p), (''settings'', s), (''xList'', JArr xl), (''yList'', JArr yl)]"
| "shape_obj (EraseList p s xl yl) =
     [(''position'', p), (''settings'', s), (''xList'', JArr xl), (''yList'', JArr yl)]"
| "shape_obj (DrawnText p s cs) =
     [(''position'', p), (''settings'', s), (''chars'', JArr cs)]"

text \<open>
  One record of \<open>createJsonBlob\<close>:
  \<^verbatim>\<open>
  let tmp = JSON.parse(JSON.stringify(drawer.shapes[i]));
  tmp["type"] = drawer.shapes[i].__proto__.constructor.name;
  \<close>
\<close>

definition toJson :: "jsval shape \<Rightarrow> jsval" where
  "toJson sh =
     (case json_clone (JObj (shape_obj sh)) of
        JObj fs \<Rightarrow> JObj (setField ''type'' (JStr (constructor_name sh)) fs)
      | v \<Rightarrow> v)"

text \<open>
  The number of rounds of \<open>for (let j = 0; j < len; j++)\<close>: the naturals below \<open>len\<close>.
  The comparison with \<open>undefined\<close> or \<open>NaN\<close> is false.
\<close>

definition loop_count :: "jsval \<Rightarrow> error + nat" where
  "loop_count len =
     (case toNumber len of
        Inl e \<Rightarrow> Inl e
      | Inr None \<Rightarrow> Inr 0
      | Inr (Some r) \<Rightarrow> Inr (nat \<lceil>r\<rceil>))"

text \<open>
  The loops of \<open>createShapeFromJson\<close> that replay a stored stroke or text through
  \<open>resize\<close>, for the counters in \<open>js\<close>:
  \<^verbatim>\<open>ll.resize(jsonShape.xList[j], jsonShape.yList[j]);\<close> and
  \<^verbatim>\<open>dt.resize(jsonShape.chars[j]);\<close>
\<close>

fun replay2 :: "jsval \<Rightarrow> jsval \<Rightarrow> nat list \<Rightarrow> 's shape \<Rightarrow> error + 's shape" where
  "replay2 xs ys [] sh = Inr sh"
| "replay2 xs ys (j # js) sh =
     andThen (getIndex xs j) (\<lambda>a.
     andThen (getIndex ys j) (\<lambda>b.
       case resize a b sh of
         (sh', Some e) \<Rightarrow> Inl e
       | (sh', None) \<Rightarrow> replay2 xs ys js sh'))"

fun replay1 :: "jsval \<Rightarrow> nat list \<Rightarrow> 's shape \<Rightarrow> error + 's shape" where
  "replay1 cs [] sh = Inr sh"
| "replay1 cs (j # js) sh =
     andThen (getIndex cs j) (\<lambda>a.
       case resize a JUndefined sh of
         (sh', Some e) \<Rightarrow> Inl e
       | (sh', None) \<Rightarrow> replay1 cs js sh')"

text \<open>
  The \<open>switch (jsonShape.type)\<close> of \<open>createShapeFromJson\<close>, up to the shape it builds:
  \<open>Inr None\<close> when no \<open>case\<close> matches, \<open>Inl\<close> when building the shape throws.
\<close>

definition shapeFromJson :: "jsval \<Rightarrow> error + jsval shape option" where
  "shapeFromJson jsonShape =
     andThen (getProp jsonShape ''type'') (\<lambda>t.
     if t = JStr ''Rectangle'' then
       andThen (getProp jsonShape ''position'') (\<lambda>p.
       andThen (getProp jsonShape ''settings'') (\<lambda>s.
       andThen (getProp jsonShape ''width'') (\<lambda>w.
       andThen (getProp jsonShape ''height'') (\<lambda>h.
       Inr (Some (new_Rectangle p s w h))))))
     else if t = JStr ''Oval'' then
       andThen (getProp jsonShape ''position'') (\<lambda>p.
       andThen (getProp jsonShape ''settings'') (\<lambda>s.
       andThen (getProp jsonShape ''xRadius'') (\<lambda>xr.
       andThen (getProp jsonShape ''yRadius'') (\<lambda>yr.
       andThen (new_Oval p s xr yr) (\<lambda>sh. Inr (Some sh))))))
     else if t = JStr ''Circle'' then
       andThen (getProp jsonShape ''position'') (\<lambda>p.
       andThen (getProp jsonShape ''settings'') (\<lambda>s.
       andThen (getProp jsonShape ''xRadius'') (\<lambda>xr.
       andThen (new_Circle p s xr) (\<lambda>sh. Inr (Some sh)))))
     else if t = JStr ''Line'' then
       andThen (getProp jsonShape ''position'') (\<lambda>p.
       andThen (getProp jsonShape ''settings'') (\<lambda>s.
       andThen (getProp jsonShape ''endPosition'') (\<lambda>e.
       andThen (new_Line p s e) (\<lambda>sh. Inr (Some sh)))))
     else if t = JStr ''LineList'' then
       andThen (getProp jsonShape ''position'') (\<lambda>p.
       andThen (getProp jsonShape ''settings'') (\<lambda>s.
       andThen (getProp jsonShape ''xList'') (\<lambda>xs.
       andThen (andThen (getProp xs ''length'') loop_count) (\<lambda>n.
       andThen (getProp jsonShape ''yList'') (\<lambda>ys.
       andThen (replay2 xs ys [0..<n] (new_LineList p s)) (\<lambda>sh. Inr (Some sh)))))))
     else if t = JStr ''EraseList'' then
       andThen (getProp jsonShape ''position'') (\<lambda>p.
       andThen (getProp jsonShape ''settings'') (\<lambda>s.
       andThen (getProp jsonShape ''xList'') (\<lambda>xs.
       andThen (andThen (getProp xs ''length'') loop_count) (\<lambda>n.
       andThen (getProp jsonShape ''yList'') (\<lambda>ys.
       andThen (replay2 xs ys [0..<n] (new_EraseList p s)) (\<lambda>sh. Inr (Some sh)))))))
     else if t = JStr ''DrawnText'' then
       andThen (getProp jsonShape ''position'') (\<lambda>p.
       andThen (getProp jsonShape ''settings'') (\<lambda>s.
       andThen (getProp jsonShape ''chars'') (\<lambda>cs.
       andThen (andThen (getProp cs ''length'') loop_count) (\<lambda>n.
       andThen (replay1 cs [0..<n] (new_DrawnText p s)) (\<lambda>sh. Inr (Some sh))))))
     else Inr None)"

section \<open>The drawer\<close>

text \<open>
  The object \<open>drawer\<close> and the part of the page its handlers read. Shape objects and
  settings objects are shared and mutated, so they live in two stores and are named by
  their addresses (the index in the store):
  \<^item> \<open>objs\<close> holds the shape objects; the \<open>settings\<close> field of a stored shape is the
    address of its settings object in \<open>sobjs\<close>;
  \<^item> \<open>sobjs\<close> holds the settings objects; address \<open>0\<close> is \<open>drawer.settings\<close>;
  \<^item> \<open>shapes\<close>, \<open>undoneShapes\<close> and \<open>selectedElement\<close> hold addresses of shapes,
    \<open>None\<close> for \<open>null\<close>;
  \<^item> \<open>canvas\<close> is what the context received since the canvas was last wiped;
  \<^item> \<open>filled_dataset\<close> is \<open>filled.dataset["filled"]\<close> of the fill toggle, and
    \<open>active_li\<close> lists, in document order, the \<open>data-shape\<close> of the items of
    \<open>#shape-list\<close> that carry the class \<open>active\<close>.
  Every address a handler creates is in range: a state reached from \<open>init\<close> has no
  dangling address (\<open>heap_ok\<close> and \<open>reachable_heap_ok\<close> below), and \<open>!\<close> is only
  meant on such states.
\<close>

record drawer =
  shapes :: "nat option list"
  undoneShapes :: "nat option list"
  selectedShape :: string
  selectedElement :: "nat option"
  objs :: "nat shape list"
  sobjs :: "jsval list"
  canvas :: "ctx_cmd list"
  filled_dataset :: string
  active_li :: "string list"

text \<open>A handler returns the state it leaves and the exception it threw, if any.\<close>

type_synonym outcome = "drawer \<times> error option"

definition drawer_settings :: "drawer \<Rightarrow> jsval" where
  "drawer_settings d = nth_js (sobjs d) 0"

text \<open>The shape object at an address, with its settings object read from the store.\<close>

definition resolve :: "drawer \<Rightarrow> nat \<Rightarrow> jsval shape" where
  "resolve d a = map_shape (nth_js (sobjs d)) (objs d ! a)"

text \<open>\<open>drawer.settings.name = v\<close>\<close>

definition assign_setting :: "string \<Rightarrow> jsval \<Rightarrow> drawer \<Rightarrow> drawer" where
  "assign_setting name v d =
     (case drawer_settings d of
        JObj fs \<Rightarrow> d\<lparr>sobjs := (sobjs d)[0 := JObj (setField name v fs)]\<rparr>
      | w \<Rightarrow> d)"

text \<open>\<open>v.slice(0, v.length)\<close>: only strings and arrays have the method.\<close>

fun slice_all :: "jsval \<Rightarrow> error + jsval" where
  "slice_all (JStr s) = Inr (JStr (take (length s) (drop 0 s)))"
| "slice_all (JArr xs) = Inr (JArr (take (length xs) (drop 0 xs)))"
| "slice_all v = Inl TypeError"

definition currentSettings :: "drawer \<Rightarrow> error + jsval" where
  "currentSettings d =
     andThen (andThen (getProp (drawer_settings d) ''color'') slice_all) (\<lambda>c.
     andThen (getProp (drawer_settings d) ''filled'') (\<lambda>f.
     andThen (getProp (drawer_settings d) ''width'') (\<lambda>w.
     andThen (andThen (getProp (drawer_settings d) ''font'') slice_all) (\<lambda>fo.
     Inr (JObj [(''color'', c), (''filled'', f), (''width'', w), (''font'', fo)])))))"

definition currentSettingsEraser :: "drawer \<Rightarrow> error + jsval" where
  "currentSettingsEraser d =
     andThen (andThen (getProp (drawer_settings d) ''color'') slice_all) (\<lambda>c.
     andThen (getProp (drawer_settings d) ''filled'') (\<lambda>f.
     andThen (andThen (getProp (drawer_settings d) ''width'') (\<lambda>w. js_add w (JNum 10))) (\<lambda>w.
     andThen (andThen (getProp (drawer_settings d) ''font'') slice_all) (\<lambda>fo.
     Inr (JObj [(''color'', c), (''filled'', f), (''width'', w), (''font'', fo)])))))"

subsection \<open>Drawing\<close>

fun drawAll :: "drawer \<Rightarrow> nat option list \<Rightarrow> trace" where
  "drawAll d [] = ([], None)"
| "drawAll d (None # rs) = drawAll d rs"
| "drawAll d (Some a # rs) = seqT (render (resolve d a)) (drawAll d rs)"

definition drawAllStoredShapes :: "drawer \<Rightarrow> trace" where
  "drawAllStoredShapes d = drawAll d (shapes d)"

definition drawSelected :: "drawer \<Rightarrow> trace" where
  "drawSelected d =
     (case selectedElement d of None \<Rightarrow> ([], None) | Some a \<Rightarrow> render (resolve d a))"

text \<open>\<open>redraw\<close> wipes the canvas (it sets its size and clears it), then draws.\<close>

definition redraw :: "drawer \<Rightarrow> outcome" where
  "redraw d =
     (let t = seqT (drawAllStoredShapes d) (drawSelected d)
      in (d\<lparr>canvas := fst t\<rparr>, snd t))"

subsection \<open>Undo and redo\<close>

definition redo :: "drawer \<Rightarrow> outcome" where
  "redo d =
     (if length (undoneShapes d) > 0 then
        redraw (d\<lparr>shapes := shapes d @ [last (undoneShapes d)],
                  undoneShapes := butlast (undoneShapes d)\<rparr>)
      else (d, None))"

definition undo :: "drawer \<Rightarrow> outcome" where
  "undo d =
     (if length (shapes d) > 0 then
        redraw (d\<lparr>undoneShapes := undoneShapes d @ [last (shapes d)],
                  shapes := butlast (shapes d)\<rparr>)
      else (d, None))"

subsection \<open>Mouse events\<close>

text \<open>
  \<open>new C(pos, settings, ...)\<close> followed by \<open>drawer.selectedElement = ...\<close>: the
  settings object and the shape object are new objects, at the next free addresses.
\<close>

definition select_new :: "jsval \<Rightarrow> (nat \<Rightarrow> nat shape) \<Rightarrow> drawer \<Rightarrow> drawer" where
  "select_new s mk d =
     d\<lparr>selectedElement := Some (length (objs d)),
       objs := objs d @ [mk (length (sobjs d))],
       sobjs := sobjs d @ [s]\<rparr>"

definition start_shape ::
  "error + jsval \<Rightarrow> (nat \<Rightarrow> error + nat shape) \<Rightarrow> drawer \<Rightarrow> outcome" where
  "start_shape cs mk d =
     (case cs of
        Inl e \<Rightarrow> (d, Some e)
      | Inr s \<Rightarrow>
        (case mk (length (sobjs d)) of
           Inl e \<Rightarrow> (d, Some e)
         | Inr sh \<Rightarrow> (select_new s (\<lambda>a. sh) d, None)))"

text \<open>The \<open>mousedown\<close> handler of the canvas, at \<open>offsetX = x\<close>, \<open>offsetY = y\<close>.\<close>

definition mousedown :: "rat \<Rightarrow> rat \<Rightarrow> drawer \<Rightarrow> outcome" where
  "mousedown x y d =
     (let pos = JObj [(''x'', JNum x), (''y'', JNum y)] in
      if selectedShape d = ''rectangle'' then
        start_shape (currentSettings d) (\<lambda>a. Inr (new_Rectangle pos a (JNum 0) (JNum 0))) d
      else if selectedShape d = ''oval'' then
        start_shape (currentSettings d) (\<lambda>a. new_Oval pos a (JNum 0) (JNum 0)) d
      else if selectedShape d = ''circle'' then
        start_shape (currentSettings d) (\<lambda>a. new_Circle pos a (JNum 0)) d
      else if selectedShape d = ''line'' then
        start_shape (currentSettings d) (\<lambda>a. new_Line pos a pos) d
      else if selectedShape d = ''lineList'' then
        start_shape (currentSettings d) (\<lambda>a. Inr (new_LineList pos a)) d
      else if selectedShape d = ''eraseList'' then
        start_shape (currentSettingsEraser d) (\<lambda>a. Inr (new_EraseList pos a)) d
      else if selectedShape d = ''text'' then
        (let d' = (if selectedElement d \<noteq> None
                   then d\<lparr>shapes := shapes d @ [selectedElement d], undoneShapes := []\<rparr>
                   else d)
         in start_shape (currentSettings d') (\<lambda>a. Inr (new_DrawnText pos a)) d')
      else (d, None))"

text \<open>A shape method that mutates the object at address \<open>a\<close>.\<close>

definition resize_at :: "nat \<Rightarrow> jsval \<Rightarrow> jsval \<Rightarrow> drawer \<Rightarrow> outcome" where
  "resize_at a u v d =
     (case resize u v (objs d ! a) of
        (sh', err) \<Rightarrow> (d\<lparr>objs := (objs d)[a := sh']\<rparr>, err))"

definition mousemove :: "rat \<Rightarrow> rat \<Rightarrow> drawer \<Rightarrow> outcome" where
  "mousemove x y d =
     (case selectedElement d of
        None \<Rightarrow> (d, None)
      | Some a \<Rightarrow>
        if selectedShape d \<noteq> ''text'' then
          (case resize_at a (JNum x) (JNum y) d of
             (d', Some e) \<Rightarrow> (d', Some e)
           | (d', None) \<Rightarrow> redraw d')
        else (d, None))"

definition mouseup :: "drawer \<Rightarrow> outcome" where
  "mouseup d =
     (if selectedElement d \<noteq> None \<and> selectedShape d \<noteq> ''text'' then
        (d\<lparr>shapes := shapes d @ [selectedElement d],
           selectedElement := None,
           undoneShapes := []\<rparr>, None)
      else (d, None))"

subsection \<open>Key events\<close>

definition textKeyPress :: "string \<Rightarrow> drawer \<Rightarrow> outcome" where
  "textKeyPress key d =
     (if key = ''Enter'' then
        (d\<lparr>shapes := shapes d @ [selectedElement d],
           selectedElement := None,
           undoneShapes := []\<rparr>, None)
      else
        (case selectedElement d of
           None \<Rightarrow> (d, Some TypeError)
         | Some a \<Rightarrow>
           (case resize_at a (JStr key) JUndefined d of
              (d', Some e) \<Rightarrow> (d', Some e)
            | (d', None) \<Rightarrow> redraw d')))"

text \<open>The \<open>keypress\<close> handler; \<open>key.toUpperCase() === "Z"\<close> holds for the keys \<open>z\<close>
  and \<open>Z\<close>.\<close>

definition keypress :: "string \<Rightarrow> bool \<Rightarrow> bool \<Rightarrow> drawer \<Rightarrow> outcome" where
  "keypress key ctrlKey shiftKey d =
     (if selectedShape d = ''text'' \<and> selectedElement d \<noteq> None then textKeyPress key d
      else if (key = ''z'' \<or> key = ''Z'') \<and> ctrlKey then
        (if shiftKey then redo d else undo d)
      else (d, None))"

definition keydown :: "string \<Rightarrow> drawer \<Rightarrow> outcome" where
  "keydown key d =
     (case selectedElement d of
        None \<Rightarrow> (d, None)
      | Some a \<Rightarrow>
        if selectedShape d = ''text'' \<and> key = ''Backspace'' then
          (case resize_at a (JStr key) JUndefined d of
             (d', Some e) \<Rightarrow> (d', Some e)
           | (d', None) \<Rightarrow> redraw d')
        else (d, None))"

subsection \<open>The navigation bar\<close>

text \<open>
  \<open>classList.toggle("active")\<close> on the item of \<open>#shape-list\<close> with a given
  \<open>data-shape\<close>; the items stand in this order in the page.
\<close>

definition shape_list_items :: "string list" where
  "shape_list_items = [''rectangle'', ''oval'', ''circle'', ''line'', ''lineList'', ''text'']"

definition toggle_active :: "string \<Rightarrow> string list \<Rightarrow> string list" where
  "toggle_active name act =
     (if name \<in> set act then removeAll name act
      else filter (\<lambda>n. n = name \<or> n \<in> set act) shape_list_items)"

text \<open>
  The \<open>click\<close> handler of an item of \<open>#shape-list\<close> whose \<open>data-shape\<close> is
  \<open>clickedShape\<close>. Its last two statements are
  \<^verbatim>\<open>document.querySelectorAll("#shape-list li.active")[0].classList.toggle("active");\<close>
  \<^verbatim>\<open>elem.classList.toggle("active");\<close>
  and the first throws when no item is active, after the drawer has been updated.
\<close>

definition click_shape :: "string \<Rightarrow> drawer \<Rightarrow> outcome" where
  "click_shape clickedShape d =
     (let d1 = (if filled_dataset d = ''no''
                then assign_setting ''filled'' (JBool False) d else d);
          d2 = (if clickedShape = ''text''
                then (assign_setting ''filled'' (JBool True) d1)
                       \<lparr>shapes := shapes d1 @ [selectedElement d1], undoneShapes := []\<rparr>
                else d1)
      in if clickedShape \<noteq> selectedShape d2 then
           (let d3 = d2\<lparr>selectedElement := None, selectedShape := clickedShape\<rparr>
            in case active_li d3 of
                 [] \<Rightarrow> (d3, Some TypeError)
               | a # rest \<Rightarrow> (d3\<lparr>active_li := toggle_active clickedShape rest\<rparr>, None))
         else (d2, None))"

text \<open>The \<open>click\<close> handler of the fill toggle.\<close>

definition click_fill :: "drawer \<Rightarrow> outcome" where
  "click_fill d =
     (if filled_dataset d = ''no''
      then ((assign_setting ''filled'' (JBool True) d)\<lparr>filled_dataset := ''yes''\<rparr>, None)
      else ((assign_setting ''filled'' (JBool False) d)\<lparr>filled_dataset := ''no''\<rparr>, None))"

text \<open>The \<open>change\<close> handler of the colour picker, whose value is \<open>v\<close>.\<close>

definition color_change :: "string \<Rightarrow> drawer \<Rightarrow> outcome" where
  "color_change v d = (assign_setting ''color'' (JStr v) d, None)"

text \<open>\<open>s.split(" ")\<close>\<close>

fun split_space :: "string \<Rightarrow> string list" where
  "split_space [] = [[]]"
| "split_space (c # cs) =
     (if c = CHR '' '' then [] # split_space cs
      else (case split_space cs of [] \<Rightarrow> [[c]] | w # ws \<Rightarrow> (c # w) # ws))"

text \<open>
  The \<open>click\<close> handler of the confirm button of the size dialog. \<open>w\<close> is
  \<open>parseInt(widthValue.innerHTML)\<close> and \<open>fontValue\<close> is \<open>fontValue.innerHTML\<close>, the
  two text nodes of the dialog:
  \<^verbatim>\<open>drawer.settings.width = parseInt(widthValue.innerHTML);\<close>
  \<^verbatim>\<open>drawer.settings.font = fontValue.innerHTML + " " + drawer.settings.font.split(" ")[1];\<close>
\<close>

definition size_confirm :: "jsval \<Rightarrow> string \<Rightarrow> drawer \<Rightarrow> outcome" where
  "size_confirm w fontValue d =
     (let d1 = assign_setting ''width'' w d in
      case getProp (drawer_settings d1) ''font'' of
        Inl e \<Rightarrow> (d1, Some e)
      | Inr (JStr f) \<Rightarrow>
          (let parts = split_space f;
               family = (if 1 < length parts then parts ! 1 else ''undefined'')
           in (assign_setting ''font'' (JStr (fontValue @ '' '' @ family)) d1, None))
      | Inr v \<Rightarrow> (d1, Some TypeError))"

subsection \<open>Files\<close>

text \<open>
  \<open>createJsonBlob\<close>: the JSON value that the text of the blob denotes. A \<open>null\<close> entry of
  \<open>drawer.shapes\<close> makes \<open>drawer.shapes[i].__proto__\<close> throw.
\<close>

fun blob_records :: "drawer \<Rightarrow> nat option list \<Rightarrow> error + jsval list" where
  "blob_records d [] = Inr []"
| "blob_records d (None # rs) = Inl TypeError"
| "blob_records d (Some a # rs) =
     andThen (blob_records d rs) (\<lambda>lst. Inr (toJson (resolve d a) # lst))"

definition createJsonBlob :: "drawer \<Rightarrow> error + jsval" where
  "createJsonBlob d =
     andThen (blob_records d (shapes d)) (\<lambda>lst. Inr (json_clone (JArr lst)))"

text \<open>
  \<open>createShapeFromJson\<close>: the shape is a new object and so is the settings object that
  \<open>JSON.parse\<close> built for it.
\<close>

definition createShapeFromJson :: "jsval \<Rightarrow> drawer \<Rightarrow> outcome" where
  "createShapeFromJson jsonShape d =
     (case shapeFromJson jsonShape of
        Inl e \<Rightarrow> (d, Some e)
      | Inr None \<Rightarrow> (d, None)
      | Inr (Some sh) \<Rightarrow>
          (d\<lparr>shapes := shapes d @ [Some (length (objs d))],
             objs := objs d @ [map_shape (\<lambda>s. length (sobjs d)) sh],
             sobjs := sobjs d @ [settings sh]\<rparr>, None))"

text \<open>The loop \<open>for (let i = 0; i < tmpList.length; i++) createShapeFromJson(tmpList[i])\<close>
  for the counters in \<open>is\<close>.\<close>

fun load_records :: "jsval \<Rightarrow> nat list \<Rightarrow> drawer \<Rightarrow> outcome" where
  "load_records tmpList [] d = (d, None)"
| "load_records tmpList (i # is) d =
     (case getIndex tmpList i of
        Inl e \<Rightarrow> (d, Some e)
      | Inr r \<Rightarrow>
        (case createShapeFromJson r d of
           (d', Some e) \<Rightarrow> (d', Some e)
         | (d', None) \<Rightarrow> load_records tmpList is d'))"

text \<open>
  \<open>constructShapesFromFile\<close>. \<open>contents\<close> is the result of \<open>JSON.parse\<close> on the text
  of the file, \<open>None\<close> when the text is not JSON and \<open>JSON.parse\<close> throws.
\<close>

definition constructShapesFromFile :: "jsval option \<Rightarrow> drawer \<Rightarrow> outcome" where
  "constructShapesFromFile contents d =
     (case contents of
        None \<Rightarrow> (d, Some SyntaxError)
      | Some tmpList \<Rightarrow>
        (let d1 = d\<lparr>selectedElement := None, shapes := [], undoneShapes := []\<rparr> in
         case andThen (getProp tmpList ''length'') loop_count of
           Inl e \<Rightarrow> (d1, Some e)
         | Inr n \<Rightarrow>
           (case load_records tmpList [0..<n] d1 of
              (d2, Some e) \<Rightarrow> (d2, Some e)
            | (d2, None) \<Rightarrow> redraw d2)))"

text \<open>The \<open>click\<close> handler of \<open>#img-clear\<close>.\<close>

definition clear_all :: "drawer \<Rightarrow> outcome" where
  "clear_all d = redraw (d\<lparr>selectedElement := None, shapes := [], undoneShapes := []\<rparr>)"

subsection \<open>Runs\<close>

text \<open>
  The state when the script has run: no item of \<open>#shape-list\<close> is active, because the
  markup gives the pencil item two \<open>class\<close> attributes and the parser drops the second.
\<close>

definition init :: drawer where
  "init =
     \<lparr>shapes = [], undoneShapes = [], selectedShape = ''lineList'', selectedElement = None,
      objs = [],
      sobjs = [JObj [(''color'', JStr ''#000000''), (''filled'', JBool False),
                     (''width'', JNum 10), (''font'', JStr ''36pt sans-serif'')]],
      canvas = [], filled_dataset = ''no'', active_li = []\<rparr>"

datatype event =
    MouseDown rat rat
  | MouseMove rat rat
  | MouseUp
  | KeyPress string bool bool
  | KeyDown string
  | ClickUndo
  | ClickRedo
  | ClickShape string
  | ClickFill
  | ColorChange string
  | SizeConfirm jsval string
  | FileLoaded "jsval option"
  | ClickClear

fun handle :: "event \<Rightarrow> drawer \<Rightarrow> outcome" where
  "handle (MouseDown x y) d = mousedown x y d"
| "handle (MouseMove x y) d = mousemove x y d"
| "handle MouseUp d = mouseup d"
| "handle (KeyPress key c s) d = keypress key c s d"
| "handle (KeyDown key) d = keydown key d"
| "handle ClickUndo d = undo d"
| "handle ClickRedo d = redo d"
| "handle (ClickShape n) d = click_shape n d"
| "handle ClickFill d = click_fill d"
| "handle (ColorChange v) d = color_change v d"
| "handle (SizeConfirm w f) d = size_confirm w f d"
| "handle (FileLoaded c) d = constructShapesFromFile c d"
| "handle ClickClear d = clear_all d"

text \<open>An exception ends a handler, not the page: the next event finds the state it left.\<close>

fun run :: "event list \<Rightarrow> drawer \<Rightarrow> drawer" where
  "run [] d = d"
| "run (e # es) d = run es (fst (handle e d))"

inductive reachable :: "drawer \<Rightarrow> bool" where
  reachable_init: "reachable init"
| reachable_step: "reachable d \<Longrightarrow> reachable (fst (handle e d))"

subsection \<open>The history, without the canvas\<close>

text \<open>
  \<open>undo\<close> and \<open>redo\<close> move an entry between the two lists and then redraw.
  \<open>forget_canvas\<close> blanks the canvas of a state, so that two states can be compared in
  everything else; \<open>undo_history\<close> and \<open>redo_history\<close> are the two handlers without
  their call of \<open>redraw\<close>.
\<close>

definition forget_canvas :: "drawer \<Rightarrow> drawer" where
  "forget_canvas d = d\<lparr>canvas := []\<rparr>"

definition undo_history :: "drawer \<Rightarrow> drawer" where
  "undo_history d =
     (if length (shapes d) > 0 then
        d\<lparr>undoneShapes := undoneShapes d @ [last (shapes d)], shapes := butlast (shapes d)\<rparr>
      else d)"

definition redo_history :: "drawer \<Rightarrow> drawer" where
  "redo_history d =
     (if length (undoneShapes d) > 0 then
        d\<lparr>shapes := shapes d @ [last (undoneShapes d)],
           undoneShapes := butlast (undoneShapes d)\<rparr>
      else d)"

subsection \<open>Records that no case of the switch matches\<close>

text \<open>
  The seven strings of the \<open>case\<close> labels in \<open>createShapeFromJson\<close>. A record is
  \<open>skipped\<close> when reading its \<open>type\<close> does not throw and gives none of them: the
  property is missing, or holds anything else. \<open>load_list\<close> is the loop of
  \<open>constructShapesFromFile\<close> over the elements of an array, in order.
\<close>

definition known_types :: "string list" where
  "known_types =
     [''Rectangle'', ''Oval'', ''Circle'', ''Line'', ''LineList'', ''EraseList'', ''DrawnText'']"

definition skipped :: "jsval \<Rightarrow> bool" where
  "skipped r =
     (case getProp r ''type'' of Inl e \<Rightarrow> False | Inr t \<Rightarrow> t \<notin> set (map JStr known_types))"

fun load_list :: "jsval list \<Rightarrow> drawer \<Rightarrow> outcome" where
  "load_list [] d = (d, None)"
| "load_list (r # rs) d =
     (case createShapeFromJson r d of
        (d', Some e) \<Rightarrow> (d', Some e)
      | (d', None) \<Rightarrow> load_list rs d')"

subsection \<open>Addresses in range, and the address of the drawer's own settings\<close>

text \<open>
  \<open>heap_ok\<close>: the store of settings objects holds \<open>drawer.settings\<close>; no shape object
  has address \<open>0\<close>, the address of \<open>drawer.settings\<close>, as its settings; and every
  address in the two lists and in \<open>selectedElement\<close> names a shape object.
\<close>

fun ref_ok :: "nat \<Rightarrow> nat option \<Rightarrow> bool" where
  "ref_ok n None = True"
| "ref_ok n (Some a) = (a < n)"

definition heap_ok :: "drawer \<Rightarrow> bool" where
  "heap_ok d =
     (sobjs d \<noteq> []
      \<and> list_all (\<lambda>sh. settings sh \<noteq> 0) (objs d)
      \<and> list_all (ref_ok (length (objs d))) (selectedElement d # shapes d @ undoneShapes d))"

subsection \<open>The line widths a drawing sets\<close>

fun line_widths :: "ctx_cmd list \<Rightarrow> jsval list" where
  "line_widths [] = []"
| "line_widths (SetLineWidth v # cs) = v # line_widths cs"
| "line_widths (c # cs) = line_widths cs"

subsection \<open>Shapes that a file gives back\<close>

text \<open>
  A \<open>json_value\<close> is a value that \<open>JSON.stringify\<close> and \<open>JSON.parse\<close> give back as
  it is: no \<open>undefined\<close> and no \<open>NaN\<close> in it. A shape is \<open>restorable\<close> when its
  fields are such values and, besides, the two point lists of a stroke have the same length,
  the characters of a text are strings of length one, the second point of an oval or a circle
  is its position, and the two radii of a circle are equal.
\<close>

definition json_value :: "jsval \<Rightarrow> bool" where
  "json_value v = (v \<noteq> JUndefined \<and> json_clone v = v)"

fun single_char :: "jsval \<Rightarrow> bool" where
  "single_char (JStr s) = (length s = 1)"
| "single_char v = False"

fun restorable :: "jsval shape \<Rightarrow> bool" where
  "restorable (Rectangle p s w h) =
     (json_value p \<and> json_value s \<and> json_value w \<and> json_value h)"
| "restorable (Oval p s xr yr x2 y2) =
     (json_value p \<and> json_value s \<and> json_value xr \<and> json_value yr
      \<and> json_value x2 \<and> json_value y2
      \<and> getProp p ''x'' = Inr x2 \<and> getProp p ''y'' = Inr y2)"
| "restorable (Circle p s xr yr x2 y2) =
     (json_value p \<and> json_value s \<and> json_value xr \<and> yr = xr
      \<and> json_value x2 \<and> json_value y2
      \<and> getProp p ''x'' = Inr x2 \<and> getProp p ''y'' = Inr y2)"
| "restorable (Line p s ex ey) =
     (json_value p \<and> json_value s \<and> json_value ex \<and> json_value ey)"
| "restorable (LineList p s xl yl) =
     (json_value p \<and> json_value s \<and> length yl = length xl
      \<and> list_all json_value xl \<and> list_all json_value yl)"
| "restorable (EraseList p s xl yl) =
     (json_value p \<and> json_value s \<and> length yl = length xl
      \<and> list_all json_value xl \<and> list_all json_value yl)"
| "restorable (DrawnText p s cs) =
     (json_value p \<and> json_value s \<and> list_all single_char cs)"

subsection \<open>The calls of the smoothing loop on numbers\<close>

text \<open>
  The call that the loop makes at counter \<open>i\<close> below the length, for points that are
  numbers: the control point is the point \<open>i\<close>; the end is the midpoint to the point
  \<open>i + 1\<close> when there is one, and \<open>NaN\<close> at the last point.
\<close>

definition curve_at :: "rat list \<Rightarrow> rat list \<Rightarrow> nat \<Rightarrow> ctx_cmd" where
  "curve_at xs ys i =
     QuadraticCurveTo (JNum (xs ! i)) (JNum (ys ! i))
       (if i + 1 < length xs then JNum ((xs ! i + xs ! (i + 1)) / 2) else JNaN)
       (if i + 1 < length ys then JNum ((ys ! i + ys ! (i + 1)) / 2) else JNaN)"

subsection \<open>Example runs\<close>


text \<open>
  The text tool is chosen, an empty text is committed with Enter and undone, and a new
  text is begun: the undone list holds the first text while the second, still empty, is in
  progress.
\<close>

definition text_in_progress :: drawer where
  "text_in_progress =
     run [ClickShape ''text'', MouseDown 5 5, KeyPress ''Enter'' False False, ClickUndo,
          MouseDown 6 6] init"

text \<open>A pencil stroke from \<open>(1, 1)\<close> through \<open>(3, 4)\<close>, committed.\<close>

definition committed_stroke :: drawer where
  "committed_stroke = run [MouseDown 1 1, MouseMove 3 4, MouseUp] init"

text \<open>
  The state with the eraser as the tool. No item of \<open>#shape-list\<close> has
  \<open>data-shape="eraseList"\<close>, so no click selects it; the \<open>mousedown\<close> handler has the
  case all the same.
\<close>

definition eraser_selected :: drawer where
  "eraser_selected = init\<lparr>selectedShape := ''eraseList''\<rparr>"

text \<open>The settings object of a shape drawn in the first state, and a point.\<close>

definition black :: jsval where
  "black = JObj [(''color'', JStr ''#000000''), (''filled'', JBool False),
                 (''width'', JNum 10), (''font'', JStr ''36pt sans-serif'')]"

definition point :: "rat \<Rightarrow> rat \<Rightarrow> jsval" where
  "point x y = JObj [(''x'', JNum x), (''y'', JNum y)]"

text \<open>A file record of a rectangle, and a record with the tag of a stroke and no points.\<close>

definition rect_record :: jsval where
  "rect_record =
     JObj [(''position'', point 10 10), (''settings'', black),
           (''width'', JNum 40), (''height'', JNum 30), (''type'', JStr ''Rectangle'')]"

definition stroke_without_points :: jsval where
  "stroke_without_points = JObj [(''type'', JStr ''LineList'')]"

text \<open>The oval tool is chosen and an oval is dragged from \<open>(0, 0)\<close> to \<open>(10, 20)\<close>.\<close>

definition drawn_oval :: drawer where
  "drawn_oval = run [ClickShape ''oval'', MouseDown 0 0, MouseMove 10 20, MouseUp] init"

text \<open>
  The text tool is chosen, a text is begun and \<open>H\<close> is typed; the text tool is clicked
  again; then \<open>i\<close> and Enter are typed.
\<close>

definition text_tool_clicked_twice :: drawer where
  "text_tool_clicked_twice =
     run [ClickShape ''text'', MouseDown 5 5, KeyPress ''H'' False False, ClickShape ''text'',
          KeyPress ''i'' False False, KeyPress ''Enter'' False False] init"


section \<open>Properties\<close>

subsection \<open>Fields that handlers leave alone\<close>

lemma fst_redraw:
  "fst (redraw d) = d\<lparr>canvas := fst (seqT (drawAllStoredShapes d) (drawSelected d))\<rparr>"
  by (simp add: redraw_def Let_def)

lemma redraw_fields [simp]:
  "shapes (fst (redraw d)) = shapes d"
  "undoneShapes (fst (redraw d)) = undoneShapes d"
  "selectedElement (fst (redraw d)) = selectedElement d"
  "selectedShape (fst (redraw d)) = selectedShape d"
  "objs (fst (redraw d)) = objs d"
  "sobjs (fst (redraw d)) = sobjs d"
  "filled_dataset (fst (redraw d)) = filled_dataset d"
  "active_li (fst (redraw d)) = active_li d"
  by (simp_all add: fst_redraw)

lemma assign_setting_fields [simp]:
  "shapes (assign_setting n v d) = shapes d"
  "undoneShapes (assign_setting n v d) = undoneShapes d"
  "selectedElement (assign_setting n v d) = selectedElement d"
  "selectedShape (assign_setting n v d) = selectedShape d"
  "objs (assign_setting n v d) = objs d"
  "filled_dataset (assign_setting n v d) = filled_dataset d"
  "active_li (assign_setting n v d) = active_li d"
  "canvas (assign_setting n v d) = canvas d"
  by (simp_all add: assign_setting_def split: jsval.splits)


lemma forget_redraw: "forget_canvas (fst (redraw d)) = forget_canvas d"
  by (simp add: fst_redraw forget_canvas_def)

lemma forget_undo: "forget_canvas (fst (undo d)) = undo_history (forget_canvas d)"
  by (simp add: undo_def undo_history_def forget_redraw) (simp add: forget_canvas_def)

lemma forget_redo: "forget_canvas (fst (redo d)) = redo_history (forget_canvas d)"
  by (simp add: redo_def redo_history_def forget_redraw) (simp add: forget_canvas_def)

subsection \<open>Undo and redo\<close>

lemma forget_undo_funpow:
  "forget_canvas (((\<lambda>d. fst (undo d)) ^^ n) d) = (undo_history ^^ n) (forget_canvas d)"
  by (induction n) (simp_all add: forget_undo)

lemma forget_redo_funpow:
  "forget_canvas (((\<lambda>d. fst (redo d)) ^^ n) d) = (redo_history ^^ n) (forget_canvas d)"
  by (induction n) (simp_all add: forget_redo)

lemma undo_history_all:
  "(undo_history ^^ length ss) (d\<lparr>shapes := pre @ ss, undoneShapes := us\<rparr>) =
   d\<lparr>shapes := pre, undoneShapes := us @ rev ss\<rparr>"
proof (induction ss arbitrary: us rule: rev_induct)
  case Nil
  then show ?case by simp
next
  case (snoc x xs)
  have "undo_history (d\<lparr>shapes := pre @ xs @ [x], undoneShapes := us\<rparr>)
      = d\<lparr>shapes := pre @ xs, undoneShapes := us @ [x]\<rparr>"
    by (simp add: undo_history_def butlast_append)
  then show ?case
    using snoc.IH [of "us @ [x]"] by (simp add: funpow_swap1)
qed

lemma redo_history_all:
  "(redo_history ^^ length ss) (d\<lparr>shapes := pre, undoneShapes := us @ rev ss\<rparr>) =
   d\<lparr>shapes := pre @ ss, undoneShapes := us\<rparr>"
proof (induction ss arbitrary: pre)
  case Nil
  then show ?case by simp
next
  case (Cons x xs)
  have "redo_history (d\<lparr>shapes := pre, undoneShapes := us @ rev xs @ [x]\<rparr>)
      = d\<lparr>shapes := pre @ [x], undoneShapes := us @ rev xs\<rparr>"
    by (simp add: redo_history_def butlast_append)
  then show ?case
    using Cons.IH [of "pre @ [x]"] by (simp add: funpow_swap1)
qed

lemma undo_all_state:
  "forget_canvas (((\<lambda>d. fst (undo d)) ^^ length (shapes d)) d) =
   forget_canvas (d\<lparr>shapes := [], undoneShapes := undoneShapes d @ rev (shapes d)\<rparr>)"
proof -
  have "(undo_history ^^ length (shapes d))
          ((forget_canvas d)\<lparr>shapes := [] @ shapes d, undoneShapes := undoneShapes d\<rparr>) =
        (forget_canvas d)\<lparr>shapes := [], undoneShapes := undoneShapes d @ rev (shapes d)\<rparr>"
    by (rule undo_history_all)
  then show ?thesis
    by (simp add: forget_undo_funpow) (simp add: forget_canvas_def)
qed

text \<open>
  C3. With \<open>N\<close> the length of the committed list, \<open>N\<close> calls of \<open>undo\<close> followed by
  \<open>N\<close> calls of \<open>redo\<close> give back the state in everything but the canvas: the committed
  list with the same entries in the same order, the undone list, and the objects the entries
  name (the shape at any address \<open>a\<close> is the same as before). (Before the \<open>redo\<close>s the committed list is empty and the undone list has received
  the entries in reverse: lemma \<open>undo_all_state\<close>.) At the boundaries, \<open>undo\<close> on an
  empty committed list and \<open>redo\<close> on an empty undone list return the state they were
  given, canvas included, and throw nothing.
\<close>

theorem undo_redo_symmetry:
  "forget_canvas (((\<lambda>d. fst (redo d)) ^^ length (shapes d))
                   (((\<lambda>d. fst (undo d)) ^^ length (shapes d)) d)) = forget_canvas d
   \<and> shapes (((\<lambda>d. fst (redo d)) ^^ length (shapes d))
                   (((\<lambda>d. fst (undo d)) ^^ length (shapes d)) d)) = shapes d
   \<and> map (resolve (((\<lambda>d. fst (redo d)) ^^ length (shapes d))
                   (((\<lambda>d. fst (undo d)) ^^ length (shapes d)) d))) as = map (resolve d) as
   \<and> undo (d\<lparr>shapes := []\<rparr>) = (d\<lparr>shapes := []\<rparr>, None)
   \<and> redo (d\<lparr>undoneShapes := []\<rparr>) = (d\<lparr>undoneShapes := []\<rparr>, None)"
proof -
  let ?n = "length (shapes d)"
  let ?u = "((\<lambda>d. fst (undo d)) ^^ ?n) d"
  let ?r = "((\<lambda>d. fst (redo d)) ^^ ?n) ?u"
  have "forget_canvas ?r = (redo_history ^^ ?n) (forget_canvas ?u)"
    by (rule forget_redo_funpow)
  also have "forget_canvas ?u =
     (forget_canvas d)\<lparr>shapes := [], undoneShapes := undoneShapes d @ rev (shapes d)\<rparr>"
    by (simp add: undo_all_state) (simp add: forget_canvas_def)
  also have "(redo_history ^^ ?n) \<dots> =
     (forget_canvas d)\<lparr>shapes := [] @ shapes d, undoneShapes := undoneShapes d\<rparr>"
    by (rule redo_history_all)
  also have "\<dots> = forget_canvas d"
    by (simp add: forget_canvas_def)
  finally have f: "forget_canvas ?r = forget_canvas d" .
  have s: "shapes ?r = shapes d"
    using arg_cong [OF f, of shapes] by (simp add: forget_canvas_def)
  have o: "objs ?r = objs d"
    using arg_cong [OF f, of objs] by (simp add: forget_canvas_def)
  have so: "sobjs ?r = sobjs d"
    using arg_cong [OF f, of sobjs] by (simp add: forget_canvas_def)
  have "resolve ?r a = resolve d a" for a
    unfolding resolve_def o so ..
  then have m: "map (resolve ?r) as = map (resolve d) as"
    by simp
  show ?thesis
    using f s m by (simp add: undo_def redo_def)
qed

subsection \<open>A new commit empties the undone list\<close>





lemma click_text_shapes:
  "shapes (fst (click_shape ''text'' d)) = shapes d @ [selectedElement d]"
  by (simp add: click_shape_def Let_def split: list.splits)

lemma click_text_undone:
  "undoneShapes (fst (click_shape ''text'' d)) = []"
  by (simp add: click_shape_def Let_def split: list.splits)



subsection \<open>The text tool\<close>

lemma drawAll_skips_null: "drawAll d rs = drawAll d (filter (\<lambda>r. r \<noteq> None) rs)"
proof (induction rs)
  case Nil
  then show ?case by simp
next
  case (Cons r rs)
  then show ?case by (cases r) simp_all
qed

lemma drawAll_shapes_upd: "drawAll (d\<lparr>shapes := x\<rparr>) rs = drawAll d rs"
proof (induction rs)
  case Nil
  then show ?case by simp
next
  case (Cons r rs)
  then show ?case by (cases r) (simp_all add: resolve_def)
qed

text \<open>
  C10. A click on the text tool appends \<open>selectedElement\<close> to the committed list and empties
  the undone list, in every state; when nothing is in progress the entry appended is
  \<open>null\<close>. \<open>drawAllStoredShapes\<close> issues the same commands, and ends the same way, as on
  the list without its \<open>null\<close> entries, and redrawing a list that holds only \<open>null\<close>
  draws nothing and throws nothing. \<open>undo\<close> moves a \<open>null\<close> entry to the undone list
  and \<open>redo\<close> moves it back, as they do with a shape.
\<close>

theorem text_tool_click_appends_selection:
  "shapes (fst (click_shape ''text'' d)) = shapes d @ [selectedElement d]
   \<and> undoneShapes (fst (click_shape ''text'' d)) = []
   \<and> shapes (fst (click_shape ''text'' (d\<lparr>selectedElement := None\<rparr>))) = shapes d @ [None]
   \<and> drawAllStoredShapes (d\<lparr>shapes := rs\<rparr>) =
       drawAllStoredShapes (d\<lparr>shapes := filter (\<lambda>r. r \<noteq> None) rs\<rparr>)
   \<and> redraw (d\<lparr>shapes := [None], selectedElement := None\<rparr>) =
       (d\<lparr>shapes := [None], selectedElement := None, canvas := []\<rparr>, None)
   \<and> forget_canvas (fst (undo (d\<lparr>shapes := rs @ [None]\<rparr>))) =
       forget_canvas (d\<lparr>shapes := rs, undoneShapes := undoneShapes d @ [None]\<rparr>)
   \<and> forget_canvas (fst (redo (d\<lparr>undoneShapes := us @ [None]\<rparr>))) =
       forget_canvas (d\<lparr>shapes := shapes d @ [None], undoneShapes := us\<rparr>)"
proof -
  have a: "drawAllStoredShapes (d\<lparr>shapes := rs\<rparr>) =
       drawAllStoredShapes (d\<lparr>shapes := filter (\<lambda>r. r \<noteq> None) rs\<rparr>)"
    using drawAll_skips_null [of d rs]
    by (simp add: drawAllStoredShapes_def drawAll_shapes_upd)
  have b: "redraw (d\<lparr>shapes := [None], selectedElement := None\<rparr>) =
       (d\<lparr>shapes := [None], selectedElement := None, canvas := []\<rparr>, None)"
    by (simp add: redraw_def drawAllStoredShapes_def drawSelected_def seqT_def)
  have c: "forget_canvas (fst (undo (d\<lparr>shapes := rs @ [None]\<rparr>))) =
       forget_canvas (d\<lparr>shapes := rs, undoneShapes := undoneShapes d @ [None]\<rparr>)"
    by (simp add: forget_undo undo_history_def) (simp add: forget_canvas_def)
  have e: "forget_canvas (fst (redo (d\<lparr>undoneShapes := us @ [None]\<rparr>))) =
       forget_canvas (d\<lparr>shapes := shapes d @ [None], undoneShapes := us\<rparr>)"
    by (simp add: forget_redo redo_history_def) (simp add: forget_canvas_def)
  show ?thesis
    using a b c e click_text_shapes [of d] click_text_undone [of d]
      click_text_shapes [of "d\<lparr>selectedElement := None\<rparr>"]
    by simp
qed

subsection \<open>Keys of a text\<close>

text \<open>
  C8. \<open>DrawnText.resize(key)\<close> with a string key, on any text: \<open>Backspace\<close> removes the
  last character (\<open>butlast\<close> of the empty list is the empty list), a key of length one is
  appended at the end, and any other key leaves the characters as they are; it never throws.
  The keys \<open>H\<close>, \<open>i\<close>, \<open>Backspace\<close> on a new text at \<open>(5, 5)\<close> leave the one
  character \<open>H\<close>.
\<close>

theorem DrawnText_resize_keys:
  "resize (JStr k) b (DrawnText p s cs) =
     (DrawnText p s (if k = ''Backspace'' then butlast cs
                     else if length k = 1 then cs @ [JStr k] else cs), None)
   \<and> fst (resize (JStr ''Backspace'') JUndefined
       (fst (resize (JStr ''i'') JUndefined
         (fst (resize (JStr ''H'') JUndefined
           (new_DrawnText (JObj [(''x'', JNum 5), (''y'', JNum 5)]) s))))))
     = DrawnText (JObj [(''x'', JNum 5), (''y'', JNum 5)]) s [JStr ''H'']"
proof -
  have "resize (JStr k) b (DrawnText p s cs) =
     (DrawnText p s (if k = ''Backspace'' then butlast cs
                     else if length k = 1 then cs @ [JStr k] else cs), None)"
    by (cases cs rule: rev_cases) (auto simp: DrawnText_resize_def)
  then show ?thesis
    by (simp add: new_DrawnText_def DrawnText_resize_def)
qed

subsection \<open>What resize does with arguments of the wrong kind\<close>

lemma getProp_TypeError: "getProp v n = Inl e \<longleftrightarrow> (v = JUndefined \<or> v = JNull) \<and> e = TypeError"
  by (cases v) auto
















subsection \<open>Loading a file\<close>

lemma skipped_shapeFromJson: 
  assumes "skipped r"
  shows "shapeFromJson r = Inr None"
proof -
  obtain t where t: "getProp r ''type'' = Inr t" "t \<notin> set (map JStr known_types)"
    using assms by (auto simp: skipped_def split: sum.splits)
  from t(2) have n: "t \<noteq> JStr ''Rectangle''" "t \<noteq> JStr ''Oval''" "t \<noteq> JStr ''Circle''"
    "t \<noteq> JStr ''Line''" "t \<noteq> JStr ''LineList''" "t \<noteq> JStr ''EraseList''"
    "t \<noteq> JStr ''DrawnText''"
    by (auto simp: known_types_def)
  show ?thesis
    unfolding shapeFromJson_def t(1) andThen_def
    by (simp add: n)
qed

lemma skipped_createShapeFromJson: "skipped r \<Longrightarrow> createShapeFromJson r d = (d, None)"
  by (simp add: createShapeFromJson_def skipped_shapeFromJson)

lemma load_list_filter:
  "load_list (filter (\<lambda>r. \<not> skipped r) rs) d = load_list rs d"
proof (induction rs arbitrary: d)
  case Nil
  then show ?case by simp
next
  case (Cons r rs)
  show ?case
  proof (cases "skipped r")
    case True
    then show ?thesis using Cons.IH by (simp add: skipped_createShapeFromJson)
  next
    case False
    then show ?thesis using Cons.IH by (simp split: prod.splits option.splits)
  qed
qed

lemma load_records_list:
  "load_records (JArr xs) [i..<length xs] d = load_list (drop i xs) d"
proof (induction "length xs - i" arbitrary: i d)
  case 0
  then show ?case by simp
next
  case (Suc n)
  then have lt: "i < length xs" by simp
  have e: "[i..<length xs] = i # [Suc i..<length xs]"
    using lt by (rule upt_conv_Cons)
  have dr: "drop i xs = xs ! i # drop (Suc i) xs"
    using lt by (simp add: Cons_nth_drop_Suc)
  have g: "getIndex (JArr xs) i = Inr (xs ! i)"
    using lt by simp
  have ih: "load_records (JArr xs) [Suc i..<length xs] d' = load_list (drop (Suc i) xs) d'" for d'
    using Suc.hyps(1) [of "Suc i" d'] Suc.hyps(2) by simp
  have "load_records (JArr xs) (i # [Suc i..<length xs]) d =
        load_list (xs ! i # drop (Suc i) xs) d"
    unfolding load_records.simps load_list.simps g
    by (simp add: ih split: prod.splits option.splits)
  then show ?case
    by (simp only: e dr)
qed

lemma load_array:
  "constructShapesFromFile (Some (JArr rs)) d =
     (case load_list rs (d\<lparr>selectedElement := None, shapes := [], undoneShapes := []\<rparr>) of
        (d2, Some e) \<Rightarrow> (d2, Some e)
      | (d2, None) \<Rightarrow> redraw d2)"
  using load_records_list [of rs 0]
  by (simp add: constructShapesFromFile_def andThen_def loop_count_def)

lemma load_first_throws:
  "shapeFromJson r = Inl e \<Longrightarrow>
   constructShapesFromFile (Some (JArr (r # rs))) d =
     (d\<lparr>selectedElement := None, shapes := [], undoneShapes := []\<rparr>, Some e)"
  by (simp add: load_array createShapeFromJson_def)

text \<open>
  C5, as amended. After the reset, loading an array gives the same state and the same
  outcome as loading it without its \<open>skipped\<close> records, those whose \<open>type\<close> is missing
  or is none of the seven tags: they are passed over and the records after them are decoded.
  A record with one of the seven tags is never passed over, and no exception is caught: a
  \<open>null\<close> record, or a record tagged \<open>LineList\<close> that has no \<open>xList\<close>, ends the
  load with a \<open>TypeError\<close> where it stands; here it stands first, so nothing is decoded.
\<close>

theorem load_skips_unknown_types:
  "constructShapesFromFile (Some (JArr rs)) d =
     constructShapesFromFile (Some (JArr (filter (\<lambda>r. \<not> skipped r) rs))) d
   \<and> constructShapesFromFile (Some (JArr (JNull # rs))) d =
       (d\<lparr>selectedElement := None, shapes := [], undoneShapes := []\<rparr>, Some TypeError)
   \<and> constructShapesFromFile (Some (JArr (stroke_without_points # rs))) d =
       (d\<lparr>selectedElement := None, shapes := [], undoneShapes := []\<rparr>, Some TypeError)"
proof -
  have n: "shapeFromJson JNull = Inl TypeError"
    by (simp add: shapeFromJson_def andThen_def)
  have l: "shapeFromJson stroke_without_points = Inl TypeError"
    by (simp add: shapeFromJson_def stroke_without_points_def andThen_def)
  show ?thesis
    using load_first_throws [OF n, of rs d] load_first_throws [OF l, of rs d]
    by (simp add: load_array load_list_filter)
qed

text \<open>
  The claim as it stands fails: a file that holds a stroke record without points and then
  a rectangle ends with a \<open>TypeError\<close> and the rectangle is not decoded, though the file
  with the rectangle alone loads it.
\<close>

theorem load_bad_record_counterexample:
  "constructShapesFromFile (Some (JArr [stroke_without_points, rect_record])) init =
     (init, Some TypeError)
   \<and> shapes (fst (constructShapesFromFile (Some (JArr [rect_record])) init)) = [Some 0]
   \<and> snd (constructShapesFromFile (Some (JArr [rect_record])) init) = None"
  by code_simp

subsection \<open>The settings of a stored shape are not the drawer's\<close>

lemma ref_ok_mono: "ref_ok n r \<Longrightarrow> n \<le> m \<Longrightarrow> ref_ok m r"
  by (cases r) auto

lemma heap_ok_canvas [simp]: "heap_ok (d\<lparr>canvas := c\<rparr>) = heap_ok d"
  by (simp add: heap_ok_def)

lemma heap_ok_redraw: "heap_ok (fst (redraw d)) = heap_ok d"
  by (simp add: fst_redraw)

lemma heap_ok_undo: "heap_ok d \<Longrightarrow> heap_ok (fst (undo d))"
  by (cases "shapes d" rule: rev_cases) (auto simp: undo_def heap_ok_redraw heap_ok_def)

lemma heap_ok_redo: "heap_ok d \<Longrightarrow> heap_ok (fst (redo d))"
  by (cases "undoneShapes d" rule: rev_cases) (auto simp: redo_def heap_ok_redraw heap_ok_def)

lemma sobjs_assign_setting: "sobjs (assign_setting n v d) \<noteq> [] \<longleftrightarrow> sobjs d \<noteq> []"
  by (simp add: assign_setting_def split: jsval.splits)

lemma heap_ok_assign_setting: "heap_ok (assign_setting n v d) = heap_ok d"
  by (simp add: heap_ok_def sobjs_assign_setting)

lemma settings_resize: "settings (fst (resize a b sh)) = settings sh"
  by (cases sh) (auto split: sum.splits prod.splits)

lemma heap_ok_resize_at: "heap_ok d \<Longrightarrow> heap_ok (fst (resize_at a u v d))"
proof -
  assume h: "heap_ok d"
  obtain sh' err where r: "resize u v (objs d ! a) = (sh', err)"
    by (cases "resize u v (objs d ! a)")
  have s: "settings sh' = settings (objs d ! a)"
    using settings_resize [of u v "objs d ! a"] r by simp
  have "list_all (\<lambda>sh. settings sh \<noteq> 0) ((objs d)[a := sh'])"
  proof (cases "a < length (objs d)")
    case True
    then have "settings (objs d ! a) \<noteq> 0"
      using h by (simp add: heap_ok_def list_all_length)
    moreover have "set ((objs d)[a := sh']) \<subseteq> insert sh' (set (objs d))"
      by (rule set_update_subset_insert)
    ultimately show ?thesis
      using h s by (auto simp: heap_ok_def list_all_iff)
  next
    case False
    then show ?thesis using h by (simp add: heap_ok_def list_update_beyond)
  qed
  then show ?thesis
    using h r by (simp add: resize_at_def heap_ok_def)
qed

lemma heap_ok_resize_atD:
  "heap_ok d \<Longrightarrow> resize_at a u v d = (d', err) \<Longrightarrow> heap_ok d'"
  using heap_ok_resize_at [of d a u v] by simp

lemma settings_map_shape: "settings (map_shape f sh) = f (settings sh)"
  by (cases sh) simp_all

lemma ref_ok_SomeD: "list_all (ref_ok n) rs \<Longrightarrow> Some a \<in> set rs \<Longrightarrow> a < n"
  by (auto simp: list_all_iff)

lemma heap_ok_select_new:
  assumes "heap_ok d" and "\<And>a. settings (mk a) = a"
  shows "heap_ok (select_new s mk d)"
proof -
  have "length (sobjs d) \<noteq> 0" using assms(1) by (simp add: heap_ok_def)
  moreover have "list_all (ref_ok (Suc (length (objs d)))) (shapes d @ undoneShapes d)"
    using assms(1) by (auto simp: heap_ok_def list_all_iff intro: ref_ok_mono)
  ultimately show ?thesis
    using assms by (simp add: select_new_def heap_ok_def)
qed

lemma settings_new:
  "settings (new_Rectangle p a w h) = a"
  "settings (new_LineList p a) = a"
  "settings (new_EraseList p a) = a"
  "settings (new_DrawnText p a) = a"
  "new_Oval p a xr yr = Inr sh \<Longrightarrow> settings sh = a"
  "new_Circle p a r = Inr sh \<Longrightarrow> settings sh = a"
  "new_Line p a e = Inr sh \<Longrightarrow> settings sh = a"
  by (auto simp: new_Rectangle_def new_LineList_def new_EraseList_def new_DrawnText_def
      new_Oval_def new_Circle_def new_Line_def andThen_def split: sum.splits)

lemma heap_ok_start_shape:
  assumes "heap_ok d" and "\<And>a sh. mk a = Inr sh \<Longrightarrow> settings sh = a"
  shows "heap_ok (fst (start_shape cs mk d))"
proof (cases cs)
  case (Inl e)
  then show ?thesis using assms(1) by (simp add: start_shape_def)
next
  case (Inr s)
  show ?thesis
  proof (cases "mk (length (sobjs d))")
    case (Inl e)
    then show ?thesis using Inr assms(1) by (simp add: start_shape_def)
  next
    case (Inr sh)
    then have "settings sh = length (sobjs d)" by (rule assms(2))
    moreover have "length (sobjs d) \<noteq> 0" using assms(1) by (simp add: heap_ok_def)
    moreover have "list_all (ref_ok (Suc (length (objs d)))) (shapes d @ undoneShapes d)"
      using assms(1) by (auto simp: heap_ok_def list_all_iff intro: ref_ok_mono)
    ultimately show ?thesis
      using \<open>cs = Inr s\<close> Inr assms(1)
      by (simp add: start_shape_def select_new_def heap_ok_def)
  qed
qed

lemma heap_ok_push_selected:
  "heap_ok d \<Longrightarrow> heap_ok (d\<lparr>shapes := shapes d @ [selectedElement d], undoneShapes := []\<rparr>)"
  by (simp add: heap_ok_def)

lemma heap_ok_mousedown: "heap_ok d \<Longrightarrow> heap_ok (fst (mousedown x y d))"
  unfolding mousedown_def Let_def
  by (auto intro!: heap_ok_start_shape heap_ok_push_selected simp: settings_new)

lemma heap_ok_resize_redraw:
  assumes "heap_ok d"
  shows "heap_ok (fst (case resize_at a u v d of
                         (d', Some e) \<Rightarrow> (d', Some e)
                       | (d', None) \<Rightarrow> redraw d'))"
proof -
  obtain d' err where r: "resize_at a u v d = (d', err)"
    by (cases "resize_at a u v d")
  then have "heap_ok d'"
    using heap_ok_resize_at [OF assms, of a u v] by simp
  then show ?thesis
    using r by (cases err) (simp_all add: heap_ok_redraw)
qed

lemma heap_ok_mousemove: "heap_ok d \<Longrightarrow> heap_ok (fst (mousemove x y d))"
  by (cases "selectedElement d") (simp_all add: mousemove_def heap_ok_resize_redraw)

lemma heap_ok_mouseup: "heap_ok d \<Longrightarrow> heap_ok (fst (mouseup d))"
  by (simp add: mouseup_def heap_ok_def)

lemma heap_ok_textKeyPress: "heap_ok d \<Longrightarrow> heap_ok (fst (textKeyPress key d))"
proof (cases "key = ''Enter''")
  case True
  then show "heap_ok d \<Longrightarrow> ?thesis" by (simp add: textKeyPress_def heap_ok_def)
next
  case False
  then show "heap_ok d \<Longrightarrow> ?thesis"
    by (cases "selectedElement d") (simp_all add: textKeyPress_def heap_ok_resize_redraw)
qed

lemma heap_ok_keypress: "heap_ok d \<Longrightarrow> heap_ok (fst (keypress key c s d))"
  by (simp add: keypress_def heap_ok_textKeyPress heap_ok_undo heap_ok_redo)

lemma heap_ok_keydown: "heap_ok d \<Longrightarrow> heap_ok (fst (keydown key d))"
  by (cases "selectedElement d") (simp_all add: keydown_def heap_ok_resize_redraw)

lemma heap_ok_click_shape: "heap_ok d \<Longrightarrow> heap_ok (fst (click_shape n d))"
  by (auto simp: click_shape_def Let_def heap_ok_def sobjs_assign_setting split: list.splits)

lemma heap_ok_click_fill: "heap_ok d \<Longrightarrow> heap_ok (fst (click_fill d))"
  by (auto simp: click_fill_def heap_ok_def sobjs_assign_setting)

lemma heap_ok_color_change: "heap_ok d \<Longrightarrow> heap_ok (fst (color_change v d))"
  by (simp add: color_change_def heap_ok_assign_setting)

lemma size_confirm_cases:
  "fst (size_confirm w f d) = assign_setting ''width'' w d
   \<or> (\<exists>u. fst (size_confirm w f d) =
          assign_setting ''font'' u (assign_setting ''width'' w d))"
proof (cases "getProp (drawer_settings (assign_setting ''width'' w d)) ''font''")
  case (Inl e)
  then show ?thesis by (simp add: size_confirm_def)
next
  case (Inr v)
  then show ?thesis by (cases v) (auto simp: size_confirm_def Let_def)
qed

lemma heap_ok_size_confirm: "heap_ok d \<Longrightarrow> heap_ok (fst (size_confirm w f d))"
  using size_confirm_cases [of w f d] by (auto simp: heap_ok_assign_setting)

lemma heap_ok_createShapeFromJson: "heap_ok d \<Longrightarrow> heap_ok (fst (createShapeFromJson r d))"
proof -
  assume h: "heap_ok d"
  have "list_all (ref_ok (Suc (length (objs d)))) (selectedElement d # shapes d @ undoneShapes d)"
    using h by (auto simp: heap_ok_def list_all_iff intro: ref_ok_mono)
  then show ?thesis
    using h by (cases "shapeFromJson r")
      (auto simp: createShapeFromJson_def heap_ok_def settings_map_shape split: option.splits)
qed

lemma heap_ok_load_records: "heap_ok d \<Longrightarrow> heap_ok (fst (load_records t is d))"
proof (induction "is" arbitrary: d)
  case Nil
  then show ?case by simp
next
  case (Cons i "is")
  show ?case
  proof (cases "getIndex t i")
    case (Inl e)
    then show ?thesis using Cons.prems by simp
  next
    case (Inr r)
    obtain d' err where c: "createShapeFromJson r d = (d', err)"
      by (cases "createShapeFromJson r d")
    then have "heap_ok d'"
      using heap_ok_createShapeFromJson [OF Cons.prems, of r] by simp
    then show ?thesis
      using Inr c Cons.IH [of d'] by (cases err) simp_all
  qed
qed

lemma heap_ok_reset:
  "heap_ok d \<Longrightarrow> heap_ok (d\<lparr>selectedElement := None, shapes := [], undoneShapes := []\<rparr>)"
  by (simp add: heap_ok_def)

lemma heap_ok_load: "heap_ok d \<Longrightarrow> heap_ok (fst (constructShapesFromFile c d))"
proof (cases c)
  case None
  then show "heap_ok d \<Longrightarrow> ?thesis" by (simp add: constructShapesFromFile_def)
next
  case (Some t)
  assume h: "heap_ok d"
  let ?d1 = "d\<lparr>selectedElement := None, shapes := [], undoneShapes := []\<rparr>"
  show ?thesis
  proof (cases "andThen (getProp t ''length'') loop_count")
    case (Inl e)
    then show ?thesis using Some heap_ok_reset [OF h] by (simp add: constructShapesFromFile_def)
  next
    case (Inr n)
    obtain d2 err where l: "load_records t [0..<n] ?d1 = (d2, err)"
      by (cases "load_records t [0..<n] ?d1")
    then have "heap_ok d2"
      using heap_ok_load_records [OF heap_ok_reset [OF h], of t "[0..<n]"] by simp
    then show ?thesis
      using Some Inr l by (cases err) (simp_all add: constructShapesFromFile_def heap_ok_redraw)
  qed
qed

lemma heap_ok_clear_all: "heap_ok d \<Longrightarrow> heap_ok (fst (clear_all d))"
  by (simp add: clear_all_def heap_ok_redraw heap_ok_reset)

lemma heap_ok_handle: "heap_ok d \<Longrightarrow> heap_ok (fst (handle e d))"
  by (cases e)
    (simp_all add: heap_ok_mousedown heap_ok_mousemove heap_ok_mouseup heap_ok_keypress
      heap_ok_keydown heap_ok_undo heap_ok_redo heap_ok_click_shape heap_ok_click_fill
      heap_ok_color_change heap_ok_size_confirm heap_ok_load heap_ok_clear_all)

lemma heap_ok_init: "heap_ok init"
  by (simp add: init_def heap_ok_def)

lemma reachable_heap_ok: "reachable d \<Longrightarrow> heap_ok d"
  by (induction rule: reachable.induct) (simp_all add: heap_ok_init heap_ok_handle)

lemma map_shape_settings:
  "f (settings sh) = g (settings sh) \<Longrightarrow> map_shape f sh = map_shape g sh"
  by (cases sh) simp_all

lemma nth_js_update_other: "k \<noteq> 0 \<Longrightarrow> nth_js (xs[0 := v]) k = nth_js xs k"
  by (simp add: nth_js_def)

lemma sobjs_assign_setting_cases:
  "sobjs (assign_setting n v d) = sobjs d
   \<or> (\<exists>x. sobjs (assign_setting n v d) = (sobjs d)[0 := x])"
  by (cases "drawer_settings d") (auto simp: assign_setting_def)

lemma nth_js_assign_setting:
  assumes "k \<noteq> 0"
  shows "nth_js (sobjs (assign_setting n v d)) k = nth_js (sobjs d) k"
proof -
  consider "sobjs (assign_setting n v d) = sobjs d"
    | x where "sobjs (assign_setting n v d) = (sobjs d)[0 := x]"
    using sobjs_assign_setting_cases [of n v d] by blast
  then show ?thesis
  proof cases
    case 1
    then show ?thesis by simp
  next
    case 2
    then show ?thesis using assms by (simp add: nth_js_update_other)
  qed
qed

lemma resolve_assign_setting:
  assumes "heap_ok d" and "a < length (objs d)"
  shows "resolve (assign_setting n v d) a = resolve d a"
proof -
  have "settings (objs d ! a) \<noteq> 0"
    using assms by (simp add: heap_ok_def list_all_length)
  then have "nth_js (sobjs (assign_setting n v d)) (settings (objs d ! a)) =
             nth_js (sobjs d) (settings (objs d ! a))"
    by (rule nth_js_assign_setting)
  then show ?thesis
    unfolding resolve_def assign_setting_fields
    by (rule map_shape_settings)
qed


lemma run_reachable: "reachable d \<Longrightarrow> reachable (run es d)"
proof (induction es arbitrary: d)
  case Nil
  then show ?case by simp
next
  case (Cons e es)
  then show ?case by (simp add: reachable_step)
qed

text \<open>
  C6. In every state that a run of events reaches from the first state, for every shape in
  the committed or the undone list: an assignment to any property of \<open>drawer.settings\<close>
  leaves the shape as it is, its settings object included, so \<open>render\<close> issues the same
  commands for it (the colour, the line width, the font and the choice between fill and
  stroke are read from that object). The same holds for the handlers that assign to
  \<open>drawer.settings\<close>: the colour picker, the fill toggle and the size dialog.
\<close>

theorem settings_snapshot_independent:
  assumes "reachable d" and "Some a \<in> set (shapes d) \<union> set (undoneShapes d)"
  shows "resolve (assign_setting name v d) a = resolve d a
     \<and> render (resolve (assign_setting name v d) a) = render (resolve d a)
     \<and> resolve (fst (color_change c d)) a = resolve d a
     \<and> resolve (fst (click_fill d)) a = resolve d a
     \<and> resolve (fst (size_confirm w fontValue d)) a = resolve d a"
proof -
  have h: "heap_ok d" using assms(1) by (rule reachable_heap_ok)
  have a: "a < length (objs d)"
    using h assms(2) by (auto simp: heap_ok_def dest: ref_ok_SomeD)
  have r: "resolve (assign_setting n u d) a = resolve d a" for n u
    using h a by (rule resolve_assign_setting)
  have r2: "resolve (assign_setting m u' (assign_setting n u d)) a = resolve d a" for n u m u'
    using resolve_assign_setting [of "assign_setting n u d" a m u'] h a r
    by (simp add: heap_ok_assign_setting)
  have dat: "resolve (d'\<lparr>filled_dataset := x\<rparr>) a = resolve d' a" for d' x
    by (simp add: resolve_def)
  have f: "resolve (fst (click_fill d)) a = resolve d a"
    by (simp add: click_fill_def dat r)
  have s: "resolve (fst (size_confirm w fontValue d)) a = resolve d a"
    using size_confirm_cases [of w fontValue d] by (auto simp: r r2)
  show ?thesis
    using r f s by (simp add: color_change_def)
qed

text \<open>
  The theorem at \<open>committed_stroke\<close>: the colour of \<open>drawer.settings\<close> becomes red, the
  committed stroke keeps the black settings it was drawn with.
\<close>

theorem settings_snapshot_independent_witness:
  "reachable committed_stroke
   \<and> shapes committed_stroke = [Some 0]
   \<and> drawer_settings (assign_setting ''color'' (JStr ''#ff0000'') committed_stroke) =
       JObj [(''color'', JStr ''#ff0000''), (''filled'', JBool False),
             (''width'', JNum 10), (''font'', JStr ''36pt sans-serif'')]
   \<and> resolve (assign_setting ''color'' (JStr ''#ff0000'') committed_stroke) 0 =
       LineList (JObj [(''x'', JNum 1), (''y'', JNum 1)])
         (JObj [(''color'', JStr ''#000000''), (''filled'', JBool False),
                (''width'', JNum 10), (''font'', JStr ''36pt sans-serif'')])
         [JNum 3] [JNum 4]"
proof -
  have r: "reachable committed_stroke"
    unfolding committed_stroke_def by (rule run_reachable) (rule reachable_init)
  have s: "shapes committed_stroke = [Some 0]"
    by code_simp
  have v: "resolve committed_stroke 0 =
       LineList (JObj [(''x'', JNum 1), (''y'', JNum 1)])
         (JObj [(''color'', JStr ''#000000''), (''filled'', JBool False),
                (''width'', JNum 10), (''font'', JStr ''36pt sans-serif'')])
         [JNum 3] [JNum 4]"
    by code_simp
  have c: "drawer_settings (assign_setting ''color'' (JStr ''#ff0000'') committed_stroke) =
       JObj [(''color'', JStr ''#ff0000''), (''filled'', JBool False),
             (''width'', JNum 10), (''font'', JStr ''36pt sans-serif'')]"
    by code_simp
  have m: "Some 0 \<in> set (shapes committed_stroke) \<union> set (undoneShapes committed_stroke)"
    using s by simp
  show ?thesis
    using r s v c settings_snapshot_independent [OF r m, of "''color''" "JStr ''#ff0000''"]
    by simp
qed

subsection \<open>The eraser\<close>

lemma line_widths_append: "line_widths (cs @ ds) = line_widths cs @ line_widths ds"
  by (induction cs rule: line_widths.induct) simp_all

lemma fst_seqT: "fst (seqT t u) = (if snd t = None then fst t @ fst u else fst t)"
  by (cases "snd t") (simp_all add: seqT_def)

lemma line_widths_seqT_None:
  "snd t = None \<Longrightarrow> line_widths (fst (seqT t u)) = line_widths (fst t) @ line_widths (fst u)"
  by (simp add: fst_seqT line_widths_append)

lemma smooth_no_width: "line_widths (fst (smooth i xl yl)) = []"
proof (induction i xl yl rule: smooth.induct)
  case (1 i xl yl)
  show ?case
  proof (cases "int i > int (length xl) - 1")
    case True
    then show ?thesis by (simp add: smooth.simps [of i] emit_def)
  next
    case False
    show ?thesis
    proof (cases "andThen (js_add (nth_js xl i) (nth_js xl (i + 1))) js_half")
      case (Inl e)
      then show ?thesis using False by (simp add: smooth.simps [of i] bindT_def)
    next
      case cx: (Inr cx)
      show ?thesis
      proof (cases "andThen (js_add (nth_js yl i) (nth_js yl (i + 1))) js_half")
        case (Inl e)
        then show ?thesis using False cx by (simp add: smooth.simps [of i] bindT_def)
      next
        case cy: (Inr cy)
        have "line_widths (fst (smooth (i + 1) xl yl)) = []"
          using "1.IH" False by simp
        then show ?thesis
          using False cx cy
          by (simp add: smooth.simps [of i] bindT_def fst_seqT emit_def line_widths_append)
      qed
    qed
  qed
qed

lemma Shape_render_obj:
  "Shape_render (JObj fs) =
     ([SetFillStyle (case map_of fs ''color'' of None \<Rightarrow> JUndefined | Some v \<Rightarrow> v),
       SetStrokeStyle (case map_of fs ''color'' of None \<Rightarrow> JUndefined | Some v \<Rightarrow> v),
       SetLineWidth (case map_of fs ''width'' of None \<Rightarrow> JUndefined | Some v \<Rightarrow> v),
       SetFont (case map_of fs ''font'' of None \<Rightarrow> JUndefined | Some v \<Rightarrow> v)], None)"
  by (simp add: Shape_render_def bindT_def seqT_def emit_def)

lemma EraseList_line_width:
  "line_widths (fst (render (EraseList p (JObj fs) xl yl))) =
     [case map_of fs ''width'' of None \<Rightarrow> JUndefined | Some v \<Rightarrow> v]"
proof -
  have tail: "line_widths (fst (seqT (smooth 0 xl yl) (seqT (emit Stroke) (emit ClosePath)))) = []"
    by (simp add: fst_seqT line_widths_append smooth_no_width emit_def)
  have rest: "line_widths (fst (
      seqT (emit BeginPath)
      (seqT (emit (SetGlobalCompositeOperation ''destination-out''))
      (bindT (getProp p ''x'') (\<lambda>px.
       bindT (getProp p ''y'') (\<lambda>py.
       seqT (emit (MoveTo px py))
      (seqT (smooth 0 xl yl)
      (seqT (emit Stroke) (emit ClosePath))))))))) = []"
    using tail
    by (cases "getProp p ''x''"; cases "getProp p ''y''")
       (simp_all add: fst_seqT line_widths_append emit_def bindT_def)
  show ?thesis
    unfolding render.simps
    using rest
    by (simp add: line_widths_seqT_None Shape_render_obj)
qed

text \<open>
  C7. In a state whose tool is the eraser and whose \<open>drawer.settings\<close> holds a colour
  and a font that are strings and a width \<open>w\<close> that is a number, the \<open>mousedown\<close>
  handler throws nothing and puts in progress an \<open>EraseList\<close> whose settings object has
  the width \<open>w + 10\<close>. Rendering an \<open>EraseList\<close> with that settings object, whatever its
  position and points, assigns \<open>ctx.lineWidth\<close> once, and the value is \<open>w + 10\<close>.
\<close>

theorem eraser_width_offset:
  assumes "selectedShape d = ''eraseList''"
      and "drawer_settings d = JObj [(''color'', JStr c), (''filled'', f),
                                    (''width'', JNum w), (''font'', JStr fo)]"
  shows "snd (mousedown x y d) = None
     \<and> selectedElement (fst (mousedown x y d)) = Some (length (objs d))
     \<and> resolve (fst (mousedown x y d)) (length (objs d)) =
         EraseList (JObj [(''x'', JNum x), (''y'', JNum y)])
           (JObj [(''color'', JStr c), (''filled'', f),
                  (''width'', JNum (w + 10)), (''font'', JStr fo)]) [] []
     \<and> line_widths (fst (render
           (EraseList p (JObj [(''color'', JStr c), (''filled'', f),
                  (''width'', JNum (w + 10)), (''font'', JStr fo)]) xl yl))) = [JNum (w + 10)]"
proof -
  have cs: "currentSettingsEraser d =
      Inr (JObj [(''color'', JStr c), (''filled'', f),
                  (''width'', JNum (w + 10)), (''font'', JStr fo)])"
    using assms(2)
    by (simp add: currentSettingsEraser_def andThen_def js_add_def arith_def)
  have md: "mousedown x y d =
      (select_new (JObj [(''color'', JStr c), (''filled'', f),
                  (''width'', JNum (w + 10)), (''font'', JStr fo)])
         (\<lambda>a. EraseList (JObj [(''x'', JNum x), (''y'', JNum y)]) (length (sobjs d)) [] []) d, None)"
    using assms(1) cs
    by (simp add: mousedown_def start_shape_def new_EraseList_def)
  have rs: "resolve (fst (mousedown x y d)) (length (objs d)) =
         EraseList (JObj [(''x'', JNum x), (''y'', JNum y)])
           (JObj [(''color'', JStr c), (''filled'', f),
                  (''width'', JNum (w + 10)), (''font'', JStr fo)]) [] []"
    by (simp add: md select_new_def resolve_def nth_js_def)
  have lw: "line_widths (fst (render
           (EraseList p (JObj [(''color'', JStr c), (''filled'', f),
                  (''width'', JNum (w + 10)), (''font'', JStr fo)]) xl yl))) = [JNum (w + 10)]"
    by (simp add: EraseList_line_width del: render.simps)
  show ?thesis
    using rs lw by (simp add: md select_new_def del: render.simps)
qed

text \<open>The theorem in the first state with the eraser as tool: the width \<open>10\<close> gives \<open>20\<close>.\<close>

theorem eraser_width_offset_witness:
  "selectedShape eraser_selected = ''eraseList''
   \<and> drawer_settings eraser_selected =
       JObj [(''color'', JStr ''#000000''), (''filled'', JBool False),
             (''width'', JNum 10), (''font'', JStr ''36pt sans-serif'')]
   \<and> resolve (fst (mousedown 3 4 eraser_selected)) 0 =
         EraseList (JObj [(''x'', JNum 3), (''y'', JNum 4)])
           (JObj [(''color'', JStr ''#000000''), (''filled'', JBool False),
                  (''width'', JNum 20), (''font'', JStr ''36pt sans-serif'')]) [] []
   \<and> line_widths (fst (render
           (EraseList (JObj [(''x'', JNum 3), (''y'', JNum 4)])
              (JObj [(''color'', JStr ''#000000''), (''filled'', JBool False),
                  (''width'', JNum 20), (''font'', JStr ''36pt sans-serif'')])
              [JNum 5] [JNum 6]))) = [JNum 20]"
proof -
  have t: "selectedShape eraser_selected = ''eraseList''"
    by (simp add: eraser_selected_def)
  have s: "drawer_settings eraser_selected =
       JObj [(''color'', JStr ''#000000''), (''filled'', JBool False),
             (''width'', JNum 10), (''font'', JStr ''36pt sans-serif'')]"
    by (simp add: eraser_selected_def init_def drawer_settings_def nth_js_def)
  have o: "length (objs eraser_selected) = 0"
    by (simp add: eraser_selected_def init_def)
  show ?thesis
    using t s o eraser_width_offset [OF t s, of 3 4 "JObj [(''x'', JNum 3), (''y'', JNum 4)]"
        "[JNum 5]" "[JNum 6]"]
    by (simp del: render.simps)
qed

subsection \<open>Saving an oval and loading it again\<close>

text \<open>
  C1, at an oval. The oval dragged from \<open>(0, 0)\<close> to \<open>(10, 20)\<close> has the radii
  \<open>5\<close> and \<open>10\<close> and the second point \<open>x = 10\<close>, \<open>y = 20\<close>, and
  \<open>createJsonBlob\<close> writes all of them. \<open>createShapeFromJson\<close> passes the position,
  the settings and the two radii to \<open>new Oval\<close>, which sets \<open>x\<close> and \<open>y\<close> to the
  position: the loaded oval has the second point \<open>(0, 0)\<close>, and \<open>render\<close> draws its
  ellipse around \<open>(0, 0)\<close> where the saved one was drawn around \<open>(5, 10)\<close>.
\<close>

theorem oval_round_trip_loses_second_point:
  "shapes drawn_oval = [Some 0]
   \<and> resolve drawn_oval 0 = Oval (point 0 0) black (JNum 5) (JNum 10) (JNum 10) (JNum 20)
   \<and> createJsonBlob drawn_oval =
       Inr (JArr [JObj [(''position'', point 0 0), (''settings'', black),
                        (''xRadius'', JNum 5), (''yRadius'', JNum 10),
                        (''x'', JNum 10), (''y'', JNum 20), (''type'', JStr ''Oval'')]])
   \<and> shapeFromJson (toJson (resolve drawn_oval 0)) =
       Inr (Some (Oval (point 0 0) black (JNum 5) (JNum 10) (JNum 0) (JNum 0)))
   \<and> (case createJsonBlob drawn_oval of
         Inl e \<Rightarrow> False
       | Inr blob \<Rightarrow>
           (case constructShapesFromFile (Some blob) drawn_oval of
              (d, err) \<Rightarrow>
                err = None \<and> shapes d = [Some 1]
                \<and> resolve d 1 = Oval (point 0 0) black (JNum 5) (JNum 10) (JNum 0) (JNum 0)))
   \<and> fst (render (Oval (point 0 0) black (JNum 5) (JNum 10) (JNum 10) (JNum 20))) ! 6 =
       Ellipse (JNum 5) (JNum 10) (JNum 5) (JNum 10)
   \<and> fst (render (Oval (point 0 0) black (JNum 5) (JNum 10) (JNum 0) (JNum 0))) ! 6 =
       Ellipse (JNum 0) (JNum 0) (JNum 5) (JNum 10)"
  by code_simp

subsection \<open>Rendering a stroke\<close>

text \<open>
  C4, at a stroke of three points. The loop of \<open>LineList.render\<close> leaves through its
  \<open>if\<close> only when \<open>i\<close> has passed the last index. With the points \<open>(0, 0)\<close>,
  \<open>(10, 10)\<close>, \<open>(20, 0)\<close> it issues the two curves to the midpoints; then, at the last
  point, a curve whose end is computed from \<open>xList[3]\<close>, which is \<open>undefined\<close>, and so
  is \<open>NaN\<close>; then, at \<open>i = 3\<close>, the closing call with \<open>xList[3]\<close>, \<open>yList[3]\<close>,
  \<open>xList[4]\<close>, \<open>yList[4]\<close>, all \<open>undefined\<close>. No call has the last point as its end.
  \<open>EraseList.render\<close> has the same loop.
\<close>

theorem stroke_render_reads_past_the_end:
  "render (LineList (point 0 0) black [JNum 0, JNum 10, JNum 20] [JNum 0, JNum 10, JNum 0]) =
     ([SetGlobalCompositeOperation ''source-over'',
       SetFillStyle (JStr ''#000000''), SetStrokeStyle (JStr ''#000000''),
       SetLineWidth (JNum 10), SetFont (JStr ''36pt sans-serif''),
       BeginPath,
       MoveTo (JNum 0) (JNum 0),
       QuadraticCurveTo (JNum 0) (JNum 0) (JNum 5) (JNum 5),
       QuadraticCurveTo (JNum 10) (JNum 10) (JNum 15) (JNum 5),
       QuadraticCurveTo (JNum 20) (JNum 0) JNaN JNaN,
       QuadraticCurveTo JUndefined JUndefined JUndefined JUndefined,
       Stroke, ClosePath], None)
   \<and> render (EraseList (point 0 0) black [JNum 0, JNum 10, JNum 20] [JNum 0, JNum 10, JNum 0]) =
     ([SetFillStyle (JStr ''#000000''), SetStrokeStyle (JStr ''#000000''),
       SetLineWidth (JNum 10), SetFont (JStr ''36pt sans-serif''),
       BeginPath,
       SetGlobalCompositeOperation ''destination-out'',
       MoveTo (JNum 0) (JNum 0),
       QuadraticCurveTo (JNum 0) (JNum 0) (JNum 5) (JNum 5),
       QuadraticCurveTo (JNum 10) (JNum 10) (JNum 15) (JNum 5),
       QuadraticCurveTo (JNum 20) (JNum 0) JNaN JNaN,
       QuadraticCurveTo JUndefined JUndefined JUndefined JUndefined,
       Stroke, ClosePath], None)"
  by code_simp

subsection \<open>Shapes that a file gives back\<close>

lemma clone_list:
  "list_all json_value xs \<Longrightarrow>
   map (\<lambda>v. if v = JUndefined then JNull else v) (map json_clone xs) = xs"
  by (induction xs) (simp_all add: json_value_def)

lemma clone_list_comp:
  "list_all json_value xs \<Longrightarrow>
   map ((\<lambda>v. if v = JUndefined then JNull else v) \<circ> json_clone) xs = xs"
  using clone_list [of xs] by simp

lemma single_char_json: "list_all single_char cs \<Longrightarrow> list_all json_value cs"
proof (induction cs)
  case Nil
  then show ?case by simp
next
  case (Cons c cs)
  then show ?case by (cases c) (simp_all add: json_value_def)
qed

lemma toJson_restorable:
  "restorable sh \<Longrightarrow>
   toJson sh = JObj (shape_obj sh @ [(''type'', JStr (constructor_name sh))])"
proof (cases sh)
  case (Rectangle p s w h)
  then show "restorable sh \<Longrightarrow> ?thesis" by (simp add: toJson_def json_value_def)
next
  case (Oval p s xr yr x2 y2)
  then show "restorable sh \<Longrightarrow> ?thesis" by (simp add: toJson_def json_value_def)
next
  case (Circle p s xr yr x2 y2)
  then show "restorable sh \<Longrightarrow> ?thesis" by (simp add: toJson_def json_value_def)
next
  case (Line p s ex ey)
  then show "restorable sh \<Longrightarrow> ?thesis" by (simp add: toJson_def json_value_def)
next
  case (LineList p s xl yl)
  then show "restorable sh \<Longrightarrow> ?thesis"
    by (simp add: toJson_def json_value_def clone_list_comp)
next
  case (EraseList p s xl yl)
  then show "restorable sh \<Longrightarrow> ?thesis"
    by (simp add: toJson_def json_value_def clone_list_comp)
next
  case (DrawnText p s cs)
  then show "restorable sh \<Longrightarrow> ?thesis"
    by (simp add: toJson_def json_value_def clone_list_comp single_char_json)
qed

lemma loop_count_length: "loop_count (JNum (of_nat n)) = Inr n"
  by (simp add: loop_count_def)

lemma replay2_LineList:
  "length yl = length xl \<Longrightarrow> i \<le> length xl \<Longrightarrow>
   replay2 (JArr xl) (JArr yl) [i..<length xl] (LineList p s (take i xl) (take i yl)) =
     Inr (LineList p s xl yl)"
proof (induction "length xl - i" arbitrary: i)
  case 0
  then show ?case by simp
next
  case (Suc n)
  then have lt: "i < length xl" by simp
  have e: "[i..<length xl] = i # [Suc i..<length xl]"
    using lt by (rule upt_conv_Cons)
  have ih: "replay2 (JArr xl) (JArr yl) [Suc i..<length xl]
              (LineList p s (take (Suc i) xl) (take (Suc i) yl)) = Inr (LineList p s xl yl)"
    using Suc.hyps(1) [of "Suc i"] Suc.hyps(2) Suc.prems lt by simp
  show ?case
    unfolding e replay2.simps
    using lt Suc.prems(1) ih
    by (simp add: andThen_def take_Suc_conv_app_nth)
qed

lemma replay2_EraseList:
  "length yl = length xl \<Longrightarrow> i \<le> length xl \<Longrightarrow>
   replay2 (JArr xl) (JArr yl) [i..<length xl] (EraseList p s (take i xl) (take i yl)) =
     Inr (EraseList p s xl yl)"
proof (induction "length xl - i" arbitrary: i)
  case 0
  then show ?case by simp
next
  case (Suc n)
  then have lt: "i < length xl" by simp
  have e: "[i..<length xl] = i # [Suc i..<length xl]"
    using lt by (rule upt_conv_Cons)
  have ih: "replay2 (JArr xl) (JArr yl) [Suc i..<length xl]
              (EraseList p s (take (Suc i) xl) (take (Suc i) yl)) = Inr (EraseList p s xl yl)"
    using Suc.hyps(1) [of "Suc i"] Suc.hyps(2) Suc.prems lt by simp
  show ?case
    unfolding e replay2.simps
    using lt Suc.prems(1) ih
    by (simp add: andThen_def take_Suc_conv_app_nth)
qed

lemma resize_single_char:
  "single_char c \<Longrightarrow> DrawnText_resize c cs = (cs @ [c], None)"
  by (cases c) (auto simp: DrawnText_resize_def)

lemma replay1_DrawnText:
  "list_all single_char cs \<Longrightarrow> i \<le> length cs \<Longrightarrow>
   replay1 (JArr cs) [i..<length cs] (DrawnText p s (take i cs)) = Inr (DrawnText p s cs)"
proof (induction "length cs - i" arbitrary: i)
  case 0
  then show ?case by simp
next
  case (Suc n)
  then have lt: "i < length cs" by simp
  have e: "[i..<length cs] = i # [Suc i..<length cs]"
    using lt by (rule upt_conv_Cons)
  have c: "single_char (cs ! i)"
    using Suc.prems(1) lt by (simp add: list_all_length)
  have ih: "replay1 (JArr cs) [Suc i..<length cs] (DrawnText p s (take (Suc i) cs)) =
              Inr (DrawnText p s cs)"
    using Suc.hyps(1) [of "Suc i"] Suc.hyps(2) Suc.prems lt by simp
  show ?case
    unfolding e replay1.simps
    using lt ih
    by (simp add: andThen_def take_Suc_conv_app_nth resize_single_char [OF c])
qed

text \<open>
  Saving a \<open>restorable\<close> shape and loading the record gives the shape back, field for
  field and with its points and characters in order: this covers every rectangle, line,
  stroke, eraser stroke and text drawn with the mouse and the keys, and the ovals and circles
  whose second point is their position.
\<close>

theorem restorable_round_trip:
  assumes "restorable sh"
  shows "shapeFromJson (toJson sh) = Inr (Some sh)"
proof (cases sh)
  case (Rectangle p s w h)
  then show ?thesis
    using assms by (simp add: toJson_restorable shapeFromJson_def andThen_def new_Rectangle_def)
next
  case (Oval p s xr yr x2 y2)
  then show ?thesis
    using assms by (simp add: toJson_restorable shapeFromJson_def andThen_def new_Oval_def)
next
  case (Circle p s xr yr x2 y2)
  then show ?thesis
    using assms by (simp add: toJson_restorable shapeFromJson_def andThen_def new_Circle_def)
next
  case (Line p s ex ey)
  then show ?thesis
    using assms by (simp add: toJson_restorable shapeFromJson_def andThen_def new_Line_def)
next
  case (LineList p s xl yl)
  then have l: "length yl = length xl" using assms by simp
  show ?thesis
    using assms LineList replay2_LineList [OF l, of 0 p s]
    by (simp add: toJson_restorable shapeFromJson_def andThen_def new_LineList_def
        loop_count_length)
next
  case (EraseList p s xl yl)
  then have l: "length yl = length xl" using assms by simp
  show ?thesis
    using assms EraseList replay2_EraseList [OF l, of 0 p s]
    by (simp add: toJson_restorable shapeFromJson_def andThen_def new_EraseList_def
        loop_count_length)
next
  case (DrawnText p s cs)
  then have c: "list_all single_char cs" using assms by simp
  show ?thesis
    using assms DrawnText replay1_DrawnText [OF c, of 0 p s]
    by (simp add: toJson_restorable shapeFromJson_def andThen_def new_DrawnText_def
        loop_count_length)
qed

text \<open>The theorem at a stroke with two points and at a text.\<close>

theorem restorable_round_trip_witness:
  "restorable (LineList (point 1 1) black [JNum 3, JNum 5] [JNum 4, JNum 6])
   \<and> shapeFromJson (toJson (LineList (point 1 1) black [JNum 3, JNum 5] [JNum 4, JNum 6])) =
       Inr (Some (LineList (point 1 1) black [JNum 3, JNum 5] [JNum 4, JNum 6]))
   \<and> restorable (DrawnText (point 5 5) black [JStr ''H'', JStr ''i''])
   \<and> shapeFromJson (toJson (DrawnText (point 5 5) black [JStr ''H'', JStr ''i''])) =
       Inr (Some (DrawnText (point 5 5) black [JStr ''H'', JStr ''i'']))"
proof -
  have l: "restorable (LineList (point 1 1) black [JNum 3, JNum 5] [JNum 4, JNum 6])"
    by (simp add: json_value_def point_def black_def)
  have t: "restorable (DrawnText (point 5 5) black [JStr ''H'', JStr ''i''])"
    by (simp add: json_value_def point_def black_def)
  show ?thesis
    using l t restorable_round_trip [OF l] restorable_round_trip [OF t] by simp
qed

subsection \<open>The smoothing loop on numbers\<close>

lemma mid_numeric:
  "i < length xs \<Longrightarrow>
   andThen (js_add (nth_js (map JNum xs) i) (nth_js (map JNum xs) (i + 1))) js_half =
     Inr (if i + 1 < length xs then JNum ((xs ! i + xs ! (i + 1)) / 2) else JNaN)"
  by (simp add: nth_js_def js_add_def js_half_def arith_def andThen_def)

lemma smooth_numeric_from:
  "length ys = length xs \<Longrightarrow> i \<le> length xs \<Longrightarrow>
   smooth i (map JNum xs) (map JNum ys) =
     (map (curve_at xs ys) [i..<length xs] @
      [QuadraticCurveTo JUndefined JUndefined JUndefined JUndefined], None)"
proof (induction "length xs - i" arbitrary: i)
  case 0
  then have i: "i = length xs" by simp
  have "smooth (length xs) (map JNum xs) (map JNum ys) =
     ([QuadraticCurveTo JUndefined JUndefined JUndefined JUndefined], None)"
    using "0.prems"(1) by (subst smooth.simps) (simp add: emit_def nth_js_def)
  then show ?case
    by (simp add: i)
next
  case (Suc n)
  then have lt: "i < length xs" by simp
  have ih: "smooth (i + 1) (map JNum xs) (map JNum ys) =
     (map (curve_at xs ys) [i + 1..<length xs] @
      [QuadraticCurveTo JUndefined JUndefined JUndefined JUndefined], None)"
    using Suc.hyps(1) [of "i + 1"] Suc.hyps(2) Suc.prems lt by simp
  have e: "[i..<length xs] = i # [i + 1..<length xs]"
    using lt by (simp add: upt_conv_Cons)
  have c: "\<not> int i > int (length (map JNum xs)) - 1"
    using lt by simp
  have n: "nth_js (map JNum xs) i = JNum (xs ! i)" "nth_js (map JNum ys) i = JNum (ys ! i)"
    using lt Suc.prems by (simp_all add: nth_js_def)
  show ?case
    apply (subst smooth.simps)
    apply (simp only: c if_False)
    apply (simp only: mid_numeric [OF lt] mid_numeric [of i ys] lt Suc.prems(1) ih e bindT_def sum.case)
    apply (simp add: seqT_def emit_def curve_at_def n Suc.prems(1))
    done
qed

text \<open>
  On a stroke whose points are numbers, the loop of \<open>LineList.render\<close> and
  \<open>EraseList.render\<close> throws nothing and makes one call per point and one more: the call
  \<open>curve_at\<close> for each point, whose end at the last point is \<open>NaN\<close>, and then the call
  with four times \<open>undefined\<close>.
\<close>

theorem smooth_numeric:
  "length ys = length xs \<Longrightarrow>
   smooth 0 (map JNum xs) (map JNum ys) =
     (map (curve_at xs ys) [0..<length xs] @
      [QuadraticCurveTo JUndefined JUndefined JUndefined JUndefined], None)"
  by (rule smooth_numeric_from) simp_all

text \<open>The theorem at the stroke \<open>(0, 0)\<close>, \<open>(10, 10)\<close>.\<close>

theorem smooth_numeric_witness:
  "length [0, 10 :: rat] = length [0, 10 :: rat]
   \<and> smooth 0 [JNum 0, JNum 10] [JNum 0, JNum 10] =
       ([QuadraticCurveTo (JNum 0) (JNum 0) (JNum 5) (JNum 5),
         QuadraticCurveTo (JNum 10) (JNum 10) JNaN JNaN,
         QuadraticCurveTo JUndefined JUndefined JUndefined JUndefined], None)"
proof -
  have u: "[0..<2] = [0, Suc 0]"
    by (simp add: upt_conv_Cons)
  show ?thesis
    using smooth_numeric [of "[0, 10]" "[0, 10]"] by (simp add: curve_at_def u)
qed

subsection \<open>A text in progress when a tool is clicked\<close>

text \<open>
  A click on a tool that is not the text tool and not the tool already chosen commits
  nothing: the two lists stay as they are and the element in progress is dropped. This holds
  in particular when the tool chosen so far is the text tool and a text is in progress.
\<close>

theorem click_other_tool_drops_selection:
  "n \<noteq> ''text'' \<Longrightarrow> n \<noteq> selectedShape d \<Longrightarrow>
   shapes (fst (click_shape n d)) = shapes d
   \<and> undoneShapes (fst (click_shape n d)) = undoneShapes d
   \<and> selectedElement (fst (click_shape n d)) = None
   \<and> selectedShape (fst (click_shape n d)) = n"
  by (simp add: click_shape_def Let_def split: list.splits)

text \<open>
  The theorem at \<open>text_in_progress\<close>, where an empty text is in progress: a click on the
  rectangle tool leaves the committed list empty.
\<close>

theorem click_other_tool_drops_selection_witness:
  "''rectangle'' \<noteq> ''text''
   \<and> ''rectangle'' \<noteq> selectedShape text_in_progress
   \<and> selectedElement text_in_progress = Some 1
   \<and> shapes text_in_progress = [None]
   \<and> shapes (fst (click_shape ''rectangle'' text_in_progress)) = [None]
   \<and> selectedElement (fst (click_shape ''rectangle'' text_in_progress)) = None"
proof -
  have a: "''rectangle'' \<noteq> ''text''"
    by simp
  have b: "''rectangle'' \<noteq> selectedShape text_in_progress"
    by code_simp
  have c: "selectedElement text_in_progress = Some 1 \<and> shapes text_in_progress = [None]"
    by code_simp
  show ?thesis
    using a b c click_other_tool_drops_selection [OF a b] by simp
qed

text \<open>
  A click on the text tool while the text tool is chosen commits the text in progress and
  keeps it in progress: the key typed afterwards changes the committed text, and Enter
  commits the same object once more. (The first entry is the \<open>null\<close> that the first click
  on the text tool appended.)
\<close>

theorem text_tool_clicked_twice_shares_the_text:
  "shapes text_tool_clicked_twice = [None, Some 0, Some 0]
   \<and> selectedElement text_tool_clicked_twice = None
   \<and> resolve text_tool_clicked_twice 0 =
       DrawnText (point 5 5)
         (JObj [(''color'', JStr ''#000000''), (''filled'', JBool True),
                (''width'', JNum 10), (''font'', JStr ''36pt sans-serif'')])
         [JStr ''H'', JStr ''i'']"
  by code_simp

end
